theory Spec2Isabelle
  imports Main "HOL-Library.AList"
begin

section \<open>The document store as the initialisation script sees it\<close>

text \<open>
  The script \<^verbatim>\<open>init_mongo.js\<close> (src/unnamed/part_002) runs inside \<^verbatim>\<open>mongosh\<close> and
  talks to one database through the shell's \<^verbatim>\<open>db\<close> object.  Documents, validators,
  command documents and option objects are JavaScript object literals; they are modelled
  as a small JSON datatype whose objects are association lists in property order.
\<close>

datatype json =
    JNull
  | JBool bool
  | JNum int
  | JStr string
  | JDate nat
  | JArr "json list"
  | JObj "(string \<times> json) list"

type_synonym obj = "(string \<times> json) list"

text \<open>
  An index specification, as documented in \<^verbatim>\<open>ensureIndexes\<close>:
  \<^verbatim>\<open>{ key: {field: 1}, name: "index_name", unique: true/false, partialFilterExpression?: {} }\<close>.
  The two optional properties are absent (\<open>None\<close>) in some of the script's literals.
\<close>

record index_spec =
  idx_key :: "(string \<times> int) list"
  idx_name :: string
  idx_unique :: "bool option"
  idx_partialFilterExpression :: "json option"

record collection =
  coll_options :: obj
  coll_indexes :: "index_spec list"
  coll_documents :: "json list"

type_synonym database = "(string \<times> collection) list"

text \<open>Every method of the shell API that the script invokes on the store.\<close>

datatype call =
    GetCollectionNames
  | CreateCollection string obj
  | RunCommand obj
  | GetIndexes string
  | CreateIndex string "(string \<times> int) list" index_spec
  | EstimatedDocumentCount string
  | InsertMany string "json list"

datatype store_error =
    NamespaceExists
  | NamespaceNotFound
  | CommandNotFound
  | IndexConflict
  | Refused string

text \<open>
  The lines the script prints, one constructor per \<^verbatim>\<open>print\<close> statement of the source
  (the text of each line is fixed by the statement and its arguments).
\<close>

datatype message =
    Created_collection string
  | Updated_validator string
  | Created_index string string
  | Index_exists string string
  | Seeded_steps
  | Steps_contain nat
  | Initialization_complete string

text \<open>
  The world of one run: the database, the server's decision to refuse a call (for any
  reason outside the effects modelled below: connectivity, permissions, constraint
  violations; it may depend on how many calls were made before and on the current
  database), the log of calls issued so far, the lines printed so far, the clock
  (\<open>time w i\<close> is what the \<open>i\<close>-th evaluation of \<^verbatim>\<open>new Date()\<close> yields) with the number
  of readings taken, and the database name.
\<close>

record world =
  db :: database
  refuses :: "nat \<Rightarrow> database \<Rightarrow> call \<Rightarrow> store_error option"
  calls :: "call list"
  printed :: "message list"
  time :: "nat \<Rightarrow> nat"
  reads :: nat
  dbname :: string

type_synonym 'a outcome = "world \<times> (store_error + 'a)"

definition print :: "message \<Rightarrow> world \<Rightarrow> world" where
  "print m w = w\<lparr>printed := printed w @ [m]\<rparr>"

definition new_Date :: "world \<Rightarrow> json \<times> world" where
  "new_Date w = (JDate (time w (reads w)), w\<lparr>reads := Suc (reads w)\<rparr>)"

text \<open>
  Issuing a call logs it and asks the server whether it refuses.  A refused call throws
  and leaves the database as it was.
\<close>

definition request :: "call \<Rightarrow> world \<Rightarrow> world \<times> store_error option" where
  "request c w = (w\<lparr>calls := calls w @ [c]\<rparr>, refuses w (length (calls w)) (db w) c)"

text \<open>
  The operations below have the effect that the shell documents for a call the server
  accepts.  What the server decides from the data or the connection (schema validation of
  inserted documents, unique keys, clashes between index definitions, permissions,
  network errors) is not computed: it enters through \<open>refuses\<close>.  The \<^verbatim>\<open>_id\<close> field that an
  insert adds to a document is left out, and \<^verbatim>\<open>estimatedDocumentCount\<close> is taken to be
  the number of documents of the collection.
\<close>

text \<open>A collection as the store creates it: the given options and the \<^verbatim>\<open>_id_\<close> index.\<close>

definition id_index :: index_spec where
  "id_index = \<lparr>idx_key = [(''_id'', 1)], idx_name = ''_id_'', idx_unique = None,
     idx_partialFilterExpression = None\<rparr>"

definition new_collection :: "obj \<Rightarrow> collection" where
  "new_collection opts = \<lparr>coll_options = opts, coll_indexes = [id_index], coll_documents = []\<rparr>"

text \<open>
  \<^verbatim>\<open>Object.assign(target, source)\<close>: every property of the source, in order, is set on
  the target (overwritten in place when present, appended otherwise).
\<close>

definition Object_assign :: "obj \<Rightarrow> obj \<Rightarrow> obj" where
  "Object_assign target source = fold (\<lambda>(k, v). AList.update k v) source target"

definition getCollectionNames :: "world \<Rightarrow> string list outcome" where
  "getCollectionNames w =
     (case request GetCollectionNames w of
        (w1, Some e) \<Rightarrow> (w1, Inl e)
      | (w1, None) \<Rightarrow> (w1, Inr (map fst (db w1))))"

definition createCollection :: "string \<Rightarrow> obj \<Rightarrow> world \<Rightarrow> unit outcome" where
  "createCollection name opts w =
     (case request (CreateCollection name opts) w of
        (w1, Some e) \<Rightarrow> (w1, Inl e)
      | (w1, None) \<Rightarrow>
          (case map_of (db w1) name of
             Some c \<Rightarrow> (w1, Inl NamespaceExists)
           | None \<Rightarrow> (w1\<lparr>db := db w1 @ [(name, new_collection opts)]\<rparr>, Inr ())))"

text \<open>
  \<^verbatim>\<open>db.runCommand(doc)\<close>: the first property names the command.  The script only sends
  \<^verbatim>\<open>collMod\<close>, which sets the remaining properties on the options of an existing
  collection and does not look at its documents.
\<close>

definition runCommand :: "obj \<Rightarrow> world \<Rightarrow> unit outcome" where
  "runCommand cmd w =
     (case request (RunCommand cmd) w of
        (w1, Some e) \<Rightarrow> (w1, Inl e)
      | (w1, None) \<Rightarrow>
          (case cmd of
             (k, JStr name) # rest \<Rightarrow>
               (if k = ''collMod'' then
                  (case map_of (db w1) name of
                     None \<Rightarrow> (w1, Inl NamespaceNotFound)
                   | Some c \<Rightarrow>
                       (w1\<lparr>db := AList.update name
                          (c\<lparr>coll_options := Object_assign (coll_options c) rest\<rparr>) (db w1)\<rparr>,
                        Inr ()))
                else (w1, Inl CommandNotFound))
           | _ \<Rightarrow> (w1, Inl CommandNotFound)))"

definition getIndexes :: "string \<Rightarrow> world \<Rightarrow> index_spec list outcome" where
  "getIndexes name w =
     (case request (GetIndexes name) w of
        (w1, Some e) \<Rightarrow> (w1, Inl e)
      | (w1, None) \<Rightarrow>
          (case map_of (db w1) name of
             None \<Rightarrow> (w1, Inl NamespaceNotFound)
           | Some c \<Rightarrow> (w1, Inr (coll_indexes c))))"

text \<open>
  \<^verbatim>\<open>coll.createIndex(key, options)\<close>: a missing collection is created on the way; an
  index of the same name is left alone when it is the same index and is a conflict
  otherwise; a new index is added after the existing ones.
\<close>

definition createIndex :: "string \<Rightarrow> (string \<times> int) list \<Rightarrow> index_spec \<Rightarrow> world \<Rightarrow> unit outcome" where
  "createIndex name k idx w =
     (case request (CreateIndex name k idx) w of
        (w1, Some e) \<Rightarrow> (w1, Inl e)
      | (w1, None) \<Rightarrow>
          (let c = (case map_of (db w1) name of None \<Rightarrow> new_collection [] | Some c \<Rightarrow> c)
           in case find (\<lambda>i. idx_name i = idx_name idx) (coll_indexes c) of
                Some i \<Rightarrow>
                  (if i = idx\<lparr>idx_key := k\<rparr> then (w1\<lparr>db := AList.update name c (db w1)\<rparr>, Inr ())
                   else (w1, Inl IndexConflict))
              | None \<Rightarrow>
                  (w1\<lparr>db := AList.update name
                     (c\<lparr>coll_indexes := coll_indexes c @ [idx\<lparr>idx_key := k\<rparr>]\<rparr>) (db w1)\<rparr>,
                   Inr ())))"

definition estimatedDocumentCount :: "string \<Rightarrow> world \<Rightarrow> nat outcome" where
  "estimatedDocumentCount name w =
     (case request (EstimatedDocumentCount name) w of
        (w1, Some e) \<Rightarrow> (w1, Inl e)
      | (w1, None) \<Rightarrow>
          (case map_of (db w1) name of
             None \<Rightarrow> (w1, Inr 0)
           | Some c \<Rightarrow> (w1, Inr (length (coll_documents c)))))"

definition insertMany :: "string \<Rightarrow> json list \<Rightarrow> world \<Rightarrow> unit outcome" where
  "insertMany name docs w =
     (case request (InsertMany name docs) w of
        (w1, Some e) \<Rightarrow> (w1, Inl e)
      | (w1, None) \<Rightarrow>
          (let c = (case map_of (db w1) name of None \<Rightarrow> new_collection [] | Some c \<Rightarrow> c)
           in (w1\<lparr>db := AList.update name
                 (c\<lparr>coll_documents := coll_documents c @ docs\<rparr>) (db w1)\<rparr>,
               Inr ())))"

section \<open>The script\<close>

subsection \<open>\<^verbatim>\<open>ensureCollectionWithValidator(db, name, validator, options = {})\<close>\<close>

text \<open>
  The default parameter value applies when the caller passes no options (\<open>None\<close>).
  No call is wrapped in \<^verbatim>\<open>try\<close>: an exception thrown by the store leaves the function at
  once, before the \<^verbatim>\<open>print\<close> that follows the call.
\<close>

definition ensureCollectionWithValidator ::
    "string \<Rightarrow> json \<Rightarrow> obj option \<Rightarrow> world \<Rightarrow> unit outcome" where
  "ensureCollectionWithValidator name validator options w =
     (case getCollectionNames w of
        (w1, Inl e) \<Rightarrow> (w1, Inl e)
      | (w1, Inr names) \<Rightarrow>
          (let existing = (name \<in> set names) in
           if \<not> existing then
             (let createOpts = Object_assign
                    [(''validator'', JObj [(''$jsonSchema'', validator)]),
                     (''validationLevel'', JStr ''moderate''),
                     (''validationAction'', JStr ''error'')]
                    (case options of None \<Rightarrow> [] | Some opts \<Rightarrow> opts)
              in case createCollection name createOpts w1 of
                   (w2, Inl e) \<Rightarrow> (w2, Inl e)
                 | (w2, Inr _) \<Rightarrow> (print (Created_collection name) w2, Inr ()))
           else
             (case runCommand
                     [(''collMod'', JStr name),
                      (''validator'', JObj [(''$jsonSchema'', validator)]),
                      (''validationLevel'', JStr ''moderate''),
                      (''validationAction'', JStr ''error'')] w1 of
                (w2, Inl e) \<Rightarrow> (w2, Inl e)
              | (w2, Inr _) \<Rightarrow> (print (Updated_validator name) w2, Inr ()))))"

subsection \<open>\<^verbatim>\<open>ensureIndexes(db, name, indexSpecs)\<close>\<close>

text \<open>
  The \<^verbatim>\<open>forEach\<close> over the specifications; \<open>existing\<close> is the list of live index names
  read once before the loop.
\<close>

fun ensureIndexes_forEach ::
    "string \<Rightarrow> string list \<Rightarrow> index_spec list \<Rightarrow> world \<Rightarrow> unit outcome" where
  "ensureIndexes_forEach name existing [] w = (w, Inr ())"
| "ensureIndexes_forEach name existing (idx # rest) w =
     (if idx_name idx \<notin> set existing then
        (case createIndex name (idx_key idx) idx w of
           (w1, Inl e) \<Rightarrow> (w1, Inl e)
         | (w1, Inr _) \<Rightarrow>
             ensureIndexes_forEach name existing rest
               (print (Created_index (idx_name idx) name) w1))
      else
        ensureIndexes_forEach name existing rest (print (Index_exists (idx_name idx) name) w))"

definition ensureIndexes :: "string \<Rightarrow> index_spec list \<Rightarrow> world \<Rightarrow> unit outcome" where
  "ensureIndexes name indexSpecs w =
     (case getIndexes name w of
        (w1, Inl e) \<Rightarrow> (w1, Inl e)
      | (w1, Inr live) \<Rightarrow> ensureIndexes_forEach name (map idx_name live) indexSpecs w1)"

subsection \<open>The schemas\<close>

definition usersSchema :: json where
  "usersSchema = JObj
     [(''bsonType'', JStr ''object''),
      (''required'', JArr [JStr ''email'', JStr ''passwordHash'', JStr ''onboarding'']),
      (''additionalProperties'', JBool True),
      (''properties'', JObj
        [(''_id'', JObj [(''bsonType'', JArr [JStr ''objectId''])]),
         (''email'', JObj
           [(''bsonType'', JStr ''string''),
            (''description'', JStr ''User's email; unique, lowercased'')]),
         (''username'', JObj
           [(''bsonType'', JArr [JStr ''string'', JStr ''null'']),
            (''description'', JStr ''Optional username; unique if present'')]),
         (''passwordHash'', JObj
           [(''bsonType'', JArr [JStr ''string'', JStr ''null'']),
            (''description'', JStr ''BCrypt/Argon2 hashed password; null when OAuth-only'')]),
         (''oauthProvider'', JObj
           [(''bsonType'', JArr [JStr ''string'', JStr ''null'']),
            (''enum'', JArr [JNull, JStr ''google'', JStr ''apple'']),
            (''description'', JStr ''OAuth provider name if used'')]),
         (''oauthProviderId'', JObj
           [(''bsonType'', JArr [JStr ''string'', JStr ''null'']),
            (''description'', JStr ''Provider's unique user ID if OAuth used'')]),
         (''emailVerified'', JObj
           [(''bsonType'', JStr ''bool''),
            (''description'', JStr ''Has the user verified their email''),
            (''default'', JBool False)]),
         (''onboarding'', JObj
           [(''bsonType'', JStr ''object''),
            (''required'', JArr [JStr ''currentStep'', JStr ''completedSteps'']),
            (''properties'', JObj
              [(''currentStep'', JObj
                 [(''bsonType'', JStr ''int''),
                  (''minimum'', JNum 0),
                  (''description'', JStr ''Current onboarding step index'')]),
               (''completedSteps'', JObj
                 [(''bsonType'', JStr ''array''),
                  (''items'', JObj [(''bsonType'', JStr ''string'')]),
                  (''description'', JStr ''List of completed step identifiers'')]),
               (''startedAt'', JObj [(''bsonType'', JArr [JStr ''date'', JStr ''null''])]),
               (''completedAt'', JObj [(''bsonType'', JArr [JStr ''date'', JStr ''null''])])])]),
         (''createdAt'', JObj [(''bsonType'', JStr ''date'')]),
         (''updatedAt'', JObj [(''bsonType'', JStr ''date'')]),
         (''lastLoginAt'', JObj [(''bsonType'', JArr [JStr ''date'', JStr ''null''])]),
         (''profile'', JObj
           [(''bsonType'', JArr [JStr ''object'', JStr ''null'']),
            (''additionalProperties'', JBool True),
            (''properties'', JObj
              [(''firstName'', JObj [(''bsonType'', JArr [JStr ''string'', JStr ''null''])]),
               (''lastName'', JObj [(''bsonType'', JArr [JStr ''string'', JStr ''null''])]),
               (''country'', JObj [(''bsonType'', JArr [JStr ''string'', JStr ''null''])]),
               (''timezone'', JObj [(''bsonType'', JArr [JStr ''string'', JStr ''null''])]),
               (''marketingOptIn'', JObj [(''bsonType'', JArr [JStr ''bool'', JStr ''null''])])])])])]"

definition onboardingStepsSchema :: json where
  "onboardingStepsSchema = JObj
     [(''bsonType'', JStr ''object''),
      (''required'', JArr [JStr ''key'', JStr ''order'', JStr ''title'']),
      (''additionalProperties'', JBool True),
      (''properties'', JObj
        [(''_id'', JObj [(''bsonType'', JArr [JStr ''objectId''])]),
         (''key'', JObj
           [(''bsonType'', JStr ''string''),
            (''description'',
               JStr ''Unique step identifier (e.g., 'account', 'profile', 'preferences')'')]),
         (''order'', JObj
           [(''bsonType'', JStr ''int''),
            (''minimum'', JNum 0),
            (''description'', JStr ''Display order for the step'')]),
         (''title'', JObj [(''bsonType'', JStr ''string'')]),
         (''description'', JObj [(''bsonType'', JArr [JStr ''string'', JStr ''null''])]),
         (''isRequired'', JObj [(''bsonType'', JStr ''bool'')]),
         (''createdAt'', JObj [(''bsonType'', JStr ''date'')]),
         (''updatedAt'', JObj [(''bsonType'', JStr ''date'')])])]"

subsection \<open>The index specifications\<close>

definition usersIndexes :: "index_spec list" where
  "usersIndexes =
     [\<lparr>idx_key = [(''email'', 1)], idx_name = ''uniq_email'', idx_unique = Some True,
        idx_partialFilterExpression = None\<rparr>,
      \<lparr>idx_key = [(''username'', 1)], idx_name = ''uniq_username'', idx_unique = Some True,
        idx_partialFilterExpression =
          Some (JObj [(''username'', JObj [(''$type'', JStr ''string'')])])\<rparr>,
      \<lparr>idx_key = [(''oauthProvider'', 1), (''oauthProviderId'', 1)],
        idx_name = ''oauth_provider_id'', idx_unique = Some True,
        idx_partialFilterExpression =
          Some (JObj [(''oauthProvider'', JObj [(''$type'', JStr ''string'')]),
                      (''oauthProviderId'', JObj [(''$type'', JStr ''string'')])])\<rparr>,
      \<lparr>idx_key = [(''onboarding.currentStep'', 1)], idx_name = ''onboarding_currentStep'',
        idx_unique = None, idx_partialFilterExpression = None\<rparr>,
      \<lparr>idx_key = [(''createdAt'', - 1)], idx_name = ''createdAt_desc'', idx_unique = None,
        idx_partialFilterExpression = None\<rparr>,
      \<lparr>idx_key = [(''updatedAt'', - 1)], idx_name = ''updatedAt_desc'', idx_unique = None,
        idx_partialFilterExpression = None\<rparr>]"

definition onboardingStepsIndexes :: "index_spec list" where
  "onboardingStepsIndexes =
     [\<lparr>idx_key = [(''key'', 1)], idx_name = ''uniq_key'', idx_unique = Some True,
        idx_partialFilterExpression = None\<rparr>,
      \<lparr>idx_key = [(''order'', 1)], idx_name = ''order_asc'', idx_unique = None,
        idx_partialFilterExpression = None\<rparr>]"

subsection \<open>Seeding the default onboarding steps\<close>

text \<open>The array literal passed to \<^verbatim>\<open>insertMany\<close>; \<open>now\<close> is the value bound before it.\<close>

definition seedRecords :: "json \<Rightarrow> json list" where
  "seedRecords now =
     [JObj [(''key'', JStr ''account''),
            (''order'', JNum 0),
            (''title'', JStr ''Create Account''),
            (''description'', JStr ''Set your email and password or use an OAuth provider.''),
            (''isRequired'', JBool True),
            (''createdAt'', now),
            (''updatedAt'', now)],
      JObj [(''key'', JStr ''profile''),
            (''order'', JNum 1),
            (''title'', JStr ''Complete Profile''),
            (''description'', JStr ''Tell us about yourself to personalize your experience.''),
            (''isRequired'', JBool True),
            (''createdAt'', now),
            (''updatedAt'', now)],
      JObj [(''key'', JStr ''preferences''),
            (''order'', JNum 2),
            (''title'', JStr ''Preferences''),
            (''description'', JStr ''Choose your interests and notification settings.''),
            (''isRequired'', JBool False),
            (''createdAt'', now),
            (''updatedAt'', now)],
      JObj [(''key'', JStr ''summary''),
            (''order'', JNum 3),
            (''title'', JStr ''Summary''),
            (''description'', JStr ''Review and confirm your details.''),
            (''isRequired'', JBool True),
            (''createdAt'', now),
            (''updatedAt'', now)]]"

text \<open>
  Lines 234 to 279 of the script: the count, the comparison with zero, the clock reading
  and the bulk insert.
\<close>

definition seedIfEmpty :: "world \<Rightarrow> unit outcome" where
  "seedIfEmpty w =
     (case estimatedDocumentCount ''onboarding_steps'' w of
        (w1, Inl e) \<Rightarrow> (w1, Inl e)
      | (w1, Inr existingCount) \<Rightarrow>
          (if existingCount = 0 then
             (case new_Date w1 of
                (now, w2) \<Rightarrow>
                  (case insertMany ''onboarding_steps'' (seedRecords now) w2 of
                     (w3, Inl e) \<Rightarrow> (w3, Inl e)
                   | (w3, Inr _) \<Rightarrow> (print Seeded_steps w3, Inr ())))
           else (print (Steps_contain existingCount) w1, Inr ())))"

subsection \<open>The whole script\<close>

definition init_mongo :: "world \<Rightarrow> unit outcome" where
  "init_mongo w =
     (let currentDB = dbname w in
      case ensureCollectionWithValidator ''users'' usersSchema None w of
        (w1, Inl e) \<Rightarrow> (w1, Inl e)
      | (w1, Inr _) \<Rightarrow>
      (case ensureCollectionWithValidator ''onboarding_steps'' onboardingStepsSchema None w1 of
        (w2, Inl e) \<Rightarrow> (w2, Inl e)
      | (w2, Inr _) \<Rightarrow>
      (case ensureIndexes ''users'' usersIndexes w2 of
        (w3, Inl e) \<Rightarrow> (w3, Inl e)
      | (w3, Inr _) \<Rightarrow>
      (case ensureIndexes ''onboarding_steps'' onboardingStepsIndexes w3 of
        (w4, Inl e) \<Rightarrow> (w4, Inl e)
      | (w4, Inr _) \<Rightarrow>
      (case seedIfEmpty w4 of
        (w5, Inl e) \<Rightarrow> (w5, Inl e)
      | (w5, Inr _) \<Rightarrow> (print (Initialization_complete currentDB) w5, Inr ()))))))"

subsection \<open>The launcher's exit status (\<^verbatim>\<open>init_db.js\<close>, lines 48 to 55)\<close>

text \<open>
  \<^verbatim>\<open>spawnSync\<close> returns an \<^verbatim>\<open>error\<close> when the shell could not be started and a
  \<^verbatim>\<open>status\<close> that is \<^verbatim>\<open>null\<close> when the shell was ended by a signal.
\<close>

record spawn_result =
  spawn_error :: "string option"
  spawn_status :: "int option"

definition init_db_exit :: "spawn_result \<Rightarrow> int" where
  "init_db_exit result =
     (if spawn_error result \<noteq> None then 1
      else (case spawn_status result of None \<Rightarrow> 0 | Some s \<Rightarrow> (if s = 0 then 0 else s)))"

section \<open>Reading the store and the call log\<close>

text \<open>
  Property access on a document, the documents of a collection (none when the collection
  does not exist), and the validation policy a call carries.
\<close>

definition field :: "string \<Rightarrow> json \<Rightarrow> json option" where
  "field k j = (case j of JObj kvs \<Rightarrow> map_of kvs k | _ \<Rightarrow> None)"

definition documents_of :: "database \<Rightarrow> string \<Rightarrow> json list" where
  "documents_of d name = (case map_of d name of None \<Rightarrow> [] | Some c \<Rightarrow> coll_documents c)"


text \<open>The pairs of collection and index name of the \<^verbatim>\<open>createIndex\<close> calls in a log.\<close>

definition created_indexes :: "call list \<Rightarrow> (string \<times> string) list" where
  "created_indexes cs =
     concat (map (\<lambda>c. case c of CreateIndex name k idx \<Rightarrow> [(name, idx_name idx)] | _ \<Rightarrow> []) cs)"

text \<open>
  What the script aims at: both collections exist, the options of each already hold the
  validator and the policy that \<^verbatim>\<open>collMod\<close> would set, each has an index of every name
  the script asks for, and \<^verbatim>\<open>onboarding_steps\<close> is not empty.
\<close>

definition reconciled_collection :: "json \<Rightarrow> index_spec list \<Rightarrow> collection \<Rightarrow> bool" where
  "reconciled_collection validator specs c \<longleftrightarrow>
     Object_assign (coll_options c)
       [(''validator'', JObj [(''$jsonSchema'', validator)]),
        (''validationLevel'', JStr ''moderate''),
        (''validationAction'', JStr ''error'')] = coll_options c \<and>
     idx_name ` set specs \<subseteq> idx_name ` set (coll_indexes c)"

definition reconciled :: "database \<Rightarrow> bool" where
  "reconciled d \<longleftrightarrow>
     (case map_of d ''users'' of
        None \<Rightarrow> False
      | Some c \<Rightarrow> reconciled_collection usersSchema usersIndexes c) \<and>
     (case map_of d ''onboarding_steps'' of
        None \<Rightarrow> False
      | Some c \<Rightarrow> reconciled_collection onboardingStepsSchema onboardingStepsIndexes c \<and>
          coll_documents c \<noteq> [])"

section \<open>Example worlds\<close>

text \<open>
  An empty database on a server that refuses nothing; a database left by an earlier
  tool, whose \<^verbatim>\<open>users\<close> collection has a strict policy, an index named
  \<^verbatim>\<open>uniq_email\<close> on another key and a document the new validator rejects, and whose
  \<^verbatim>\<open>onboarding_steps\<close> collection holds one unrelated document; a database
  whose \<^verbatim>\<open>onboarding_steps\<close> collection exists and is empty; an empty database whose
  server does not let the caller create \<^verbatim>\<open>onboarding_steps\<close>.
\<close>

definition fresh_world :: world where
  "fresh_world = \<lparr>db = [], refuses = (\<lambda>n d c. None), calls = [], printed = [],
     time = (\<lambda>i. 1000 + i), reads = 0, dbname = ''myapp''\<rparr>"

definition legacy_world :: world where
  "legacy_world = \<lparr>db =
       [(''users'',
           \<lparr>coll_options = [(''validationLevel'', JStr ''strict'')],
            coll_indexes = [id_index,
              \<lparr>idx_key = [(''email'', - 1)], idx_name = ''uniq_email'', idx_unique = None,
                 idx_partialFilterExpression = None\<rparr>],
            coll_documents = [JObj [(''email'', JNum 5)]]\<rparr>),
        (''onboarding_steps'',
           \<lparr>coll_options = [], coll_indexes = [id_index],
            coll_documents = [JObj [(''key'', JStr ''welcome'')]]\<rparr>)],
     refuses = (\<lambda>n d c. None), calls = [], printed = [],
     time = (\<lambda>i. 1000 + i), reads = 0, dbname = ''myapp''\<rparr>"

definition emptied_world :: world where
  "emptied_world = \<lparr>db =
       [(''onboarding_steps'',
           \<lparr>coll_options = [], coll_indexes = [id_index], coll_documents = []\<rparr>)],
     refuses = (\<lambda>n d c. None), calls = [], printed = [],
     time = (\<lambda>i. 1000 + i), reads = 0, dbname = ''myapp''\<rparr>"

definition denying_world :: world where
  "denying_world = \<lparr>db = [],
     refuses = (\<lambda>n d c. case c of
                  CreateCollection name opts \<Rightarrow>
                    (if name = ''onboarding_steps'' then Some (Refused ''not authorized'') else None)
                | _ \<Rightarrow> None),
     calls = [], printed = [], time = (\<lambda>i. 1000 + i), reads = 0, dbname = ''myapp''\<rparr>"

section \<open>Facts about the store operations\<close>

lemma map_of_Object_assign:
  "map_of (Object_assign target source) = map_of target ++ map_of (rev source)"
  unfolding Object_assign_def
proof (induction source arbitrary: target)
  case Nil
  show ?case by simp
next
  case (Cons p ps)
  obtain k v where p: "p = (k, v)" by (cases p)
  have "map_of (fold (\<lambda>(k, v). AList.update k v) ps (AList.update k v target)) =
        map_of (AList.update k v target) ++ map_of (rev ps)"
    by (rule Cons.IH)
  then show ?case
    by (simp add: p AList.update_conv' map_add_def fun_eq_iff split: option.splits)
qed

lemma Object_assign_Nil [simp]: "Object_assign target [] = target"
  by (simp add: Object_assign_def)

lemma in_names_iff: "name \<in> fst ` set d \<longleftrightarrow> map_of d name \<noteq> None"
  by (simp add: map_of_eq_None_iff)

lemma documents_of_update:
  "documents_of (AList.update name c d) n =
     (if n = name then coll_documents c else documents_of d n)"
  by (simp add: documents_of_def AList.update_conv')


lemmas ensureCollection_defs =
  ensureCollectionWithValidator_def getCollectionNames_def request_def
  createCollection_def runCommand_def print_def Let_def in_names_iff

section \<open>\<^verbatim>\<open>ensureCollectionWithValidator\<close>: create or update\<close>

text \<open>
  C2: when the listing of collection names is answered, \<^verbatim>\<open>ensureCollectionWithValidator\<close>
  on a store without the collection issues the listing and exactly one
  \<^verbatim>\<open>createCollection\<close> call, whose options are the validator and the validation policy
  with the caller's options assigned over them (exactly the validator and the policy when
  no options are passed), and no \<^verbatim>\<open>collMod\<close>; on a store with the collection it issues
  the listing and exactly one \<^verbatim>\<open>collMod\<close> command and no \<^verbatim>\<open>createCollection\<close>.
  The log holds one write in either case, so never both.
\<close>

theorem ensureCollection_create_xor_update:
  assumes "refuses w (length (calls w)) (db w) GetCollectionNames = None"
  shows "(map_of (db w) name = None \<longrightarrow>
            calls (fst (ensureCollectionWithValidator name validator options w)) =
              calls w @ [GetCollectionNames,
                CreateCollection name (Object_assign
                  [(''validator'', JObj [(''$jsonSchema'', validator)]),
                   (''validationLevel'', JStr ''moderate''),
                   (''validationAction'', JStr ''error'')]
                  (case options of None \<Rightarrow> [] | Some opts \<Rightarrow> opts))] \<and>
            calls (fst (ensureCollectionWithValidator name validator None w)) =
              calls w @ [GetCollectionNames,
                CreateCollection name
                  [(''validator'', JObj [(''$jsonSchema'', validator)]),
                   (''validationLevel'', JStr ''moderate''),
                   (''validationAction'', JStr ''error'')]]) \<and>
         (map_of (db w) name \<noteq> None \<longrightarrow>
            calls (fst (ensureCollectionWithValidator name validator options w)) =
              calls w @ [GetCollectionNames,
                RunCommand
                  [(''collMod'', JStr name),
                   (''validator'', JObj [(''$jsonSchema'', validator)]),
                   (''validationLevel'', JStr ''moderate''),
                   (''validationAction'', JStr ''error'')]])"
  using assms
  by (simp add: ensureCollectionWithValidator_def getCollectionNames_def request_def
      createCollection_def runCommand_def print_def Object_assign_def Let_def in_names_iff
      split: option.splits)

theorem ensureCollection_create_xor_update_witness:
  "refuses fresh_world (length (calls fresh_world)) (db fresh_world) GetCollectionNames = None \<and>
   map_of (db fresh_world) ''users'' = None \<and>
   calls (fst (ensureCollectionWithValidator ''users'' usersSchema None fresh_world)) =
     [GetCollectionNames,
      CreateCollection ''users''
        [(''validator'', JObj [(''$jsonSchema'', usersSchema)]),
         (''validationLevel'', JStr ''moderate''),
         (''validationAction'', JStr ''error'')]] \<and>
   map_of (db legacy_world) ''users'' \<noteq> None \<and>
   calls (fst (ensureCollectionWithValidator ''users'' usersSchema None legacy_world)) =
     [GetCollectionNames,
      RunCommand
        [(''collMod'', JStr ''users''),
         (''validator'', JObj [(''$jsonSchema'', usersSchema)]),
         (''validationLevel'', JStr ''moderate''),
         (''validationAction'', JStr ''error'')]]"
  using ensureCollection_create_xor_update [of fresh_world "''users''" usersSchema None]
    ensureCollection_create_xor_update [of legacy_world "''users''" usersSchema None]
  by (simp add: fresh_world_def legacy_world_def)

text \<open>
  C10: when the collection exists, the result of \<^verbatim>\<open>ensureCollectionWithValidator\<close> is
  the same for every options value, and the command sent is the fixed \<^verbatim>\<open>collMod\<close> with
  the validator, level \<^verbatim>\<open>moderate\<close> and action \<^verbatim>\<open>error\<close>; when it does not exist, the
  options of the \<^verbatim>\<open>createCollection\<close> call are the defaults overridden by the caller's
  entries.
\<close>

theorem update_branch_ignores_options:
  "(map_of (db w) name \<noteq> None \<longrightarrow>
      ensureCollectionWithValidator name validator options w =
      ensureCollectionWithValidator name validator None w) \<and>
   (map_of (db w) name \<noteq> None \<longrightarrow>
    refuses w (length (calls w)) (db w) GetCollectionNames = None \<longrightarrow>
      calls (fst (ensureCollectionWithValidator name validator options w)) =
        calls w @ [GetCollectionNames,
          RunCommand
            [(''collMod'', JStr name),
             (''validator'', JObj [(''$jsonSchema'', validator)]),
             (''validationLevel'', JStr ''moderate''),
             (''validationAction'', JStr ''error'')]]) \<and>
   (map_of (db w) name = None \<longrightarrow>
    refuses w (length (calls w)) (db w) GetCollectionNames = None \<longrightarrow>
      (\<exists>createOpts.
         calls (fst (ensureCollectionWithValidator name validator (Some opts) w)) =
           calls w @ [GetCollectionNames, CreateCollection name createOpts] \<and>
         map_of createOpts =
           map_of [(''validator'', JObj [(''$jsonSchema'', validator)]),
                   (''validationLevel'', JStr ''moderate''),
                   (''validationAction'', JStr ''error'')] ++ map_of (rev opts)))"
proof (intro conjI impI)
  assume "map_of (db w) name \<noteq> None"
  then show "ensureCollectionWithValidator name validator options w =
      ensureCollectionWithValidator name validator None w"
    by (simp add: ensureCollection_defs split: option.splits)
next
  assume "map_of (db w) name \<noteq> None"
    and "refuses w (length (calls w)) (db w) GetCollectionNames = None"
  then show "calls (fst (ensureCollectionWithValidator name validator options w)) =
        calls w @ [GetCollectionNames,
          RunCommand
            [(''collMod'', JStr name),
             (''validator'', JObj [(''$jsonSchema'', validator)]),
             (''validationLevel'', JStr ''moderate''),
             (''validationAction'', JStr ''error'')]]"
    by (simp add: ensureCollection_defs split: option.splits)
next
  let ?D = "[(''validator'', JObj [(''$jsonSchema'', validator)]),
             (''validationLevel'', JStr ''moderate''),
             (''validationAction'', JStr ''error'')]"
  assume "map_of (db w) name = None"
    and "refuses w (length (calls w)) (db w) GetCollectionNames = None"
  then have "calls (fst (ensureCollectionWithValidator name validator (Some opts) w)) =
      calls w @ [GetCollectionNames, CreateCollection name (Object_assign ?D opts)]"
    by (simp add: ensureCollection_defs split: option.splits)
  moreover have "map_of (Object_assign ?D opts) = map_of ?D ++ map_of (rev opts)"
    by (rule map_of_Object_assign)
  ultimately show "\<exists>createOpts.
         calls (fst (ensureCollectionWithValidator name validator (Some opts) w)) =
           calls w @ [GetCollectionNames, CreateCollection name createOpts] \<and>
         map_of createOpts = map_of ?D ++ map_of (rev opts)"
    by blast
qed

theorem update_branch_ignores_options_witness:
  "map_of (db legacy_world) ''users'' \<noteq> None \<and>
   refuses legacy_world (length (calls legacy_world)) (db legacy_world) GetCollectionNames = None \<and>
   ensureCollectionWithValidator ''users'' usersSchema
       (Some [(''validationAction'', JStr ''warn'')]) legacy_world =
     ensureCollectionWithValidator ''users'' usersSchema None legacy_world \<and>
   calls (fst (ensureCollectionWithValidator ''users'' usersSchema
       (Some [(''validationAction'', JStr ''warn'')]) legacy_world)) =
     [GetCollectionNames,
      RunCommand
        [(''collMod'', JStr ''users''),
         (''validator'', JObj [(''$jsonSchema'', usersSchema)]),
         (''validationLevel'', JStr ''moderate''),
         (''validationAction'', JStr ''error'')]] \<and>
   map_of (db fresh_world) ''users'' = None \<and>
   refuses fresh_world (length (calls fresh_world)) (db fresh_world) GetCollectionNames = None \<and>
   (\<exists>createOpts.
      calls (fst (ensureCollectionWithValidator ''users'' usersSchema
          (Some [(''validationAction'', JStr ''warn'')]) fresh_world)) =
        [GetCollectionNames, CreateCollection ''users'' createOpts] \<and>
      map_of createOpts ''validationAction'' = Some (JStr ''warn'') \<and>
      map_of createOpts ''validationLevel'' = Some (JStr ''moderate''))"
proof -
  have l: "map_of (db legacy_world) ''users'' \<noteq> None"
    and lr: "refuses legacy_world (length (calls legacy_world)) (db legacy_world)
               GetCollectionNames = None"
    and f: "map_of (db fresh_world) ''users'' = None"
    and fr: "refuses fresh_world (length (calls fresh_world)) (db fresh_world)
               GetCollectionNames = None"
    by (simp_all add: legacy_world_def fresh_world_def)
  note t1 = update_branch_ignores_options
    [of legacy_world "''users''" usersSchema "Some [(''validationAction'', JStr ''warn'')]"]
  note t2 = update_branch_ignores_options
    [of fresh_world "''users''" usersSchema _ "[(''validationAction'', JStr ''warn'')]"]
  from t2 f fr obtain createOpts where
    c: "calls (fst (ensureCollectionWithValidator ''users'' usersSchema
          (Some [(''validationAction'', JStr ''warn'')]) fresh_world)) =
        calls fresh_world @ [GetCollectionNames, CreateCollection ''users'' createOpts]"
    and m: "map_of createOpts =
           map_of [(''validator'', JObj [(''$jsonSchema'', usersSchema)]),
                   (''validationLevel'', JStr ''moderate''),
                   (''validationAction'', JStr ''error'')] ++
           map_of (rev [(''validationAction'', JStr ''warn'')])"
    by blast
  have "map_of createOpts ''validationAction'' = Some (JStr ''warn'')"
    and "map_of createOpts ''validationLevel'' = Some (JStr ''moderate'')"
    by (simp_all add: m)
  moreover have "calls fresh_world = []" and "calls legacy_world = []"
    by (simp_all add: fresh_world_def legacy_world_def)
  ultimately show ?thesis
    using t1 l lr f fr c by auto
qed




section \<open>Failures of the store\<close>

text \<open>
  C7: every refusal of the store during \<^verbatim>\<open>ensureCollectionWithValidator\<close> is the result
  of the function: a refused listing, a refused \<^verbatim>\<open>createCollection\<close> and a refused
  \<^verbatim>\<open>collMod\<close> each end the function with that error, after the one attempt that the
  log shows and with nothing printed.  A failed call leaves the database and the printed
  lines as they were.  When the second collection fails after the first succeeded, the
  script ends with that error in the world of the failure: what the first step did to
  the database stays.
\<close>

theorem store_failure_propagates:
  "(refuses w (length (calls w)) (db w) GetCollectionNames = Some e \<longrightarrow>
      ensureCollectionWithValidator name validator options w =
        (w\<lparr>calls := calls w @ [GetCollectionNames]\<rparr>, Inl e)) \<and>
   (refuses w (length (calls w)) (db w) GetCollectionNames = None \<longrightarrow>
    map_of (db w) name = None \<longrightarrow>
    refuses w (Suc (length (calls w))) (db w)
      (CreateCollection name (Object_assign
         [(''validator'', JObj [(''$jsonSchema'', validator)]),
          (''validationLevel'', JStr ''moderate''),
          (''validationAction'', JStr ''error'')]
         (case options of None \<Rightarrow> [] | Some opts \<Rightarrow> opts))) = Some e \<longrightarrow>
      ensureCollectionWithValidator name validator options w =
        (w\<lparr>calls := calls w @ [GetCollectionNames,
            CreateCollection name (Object_assign
              [(''validator'', JObj [(''$jsonSchema'', validator)]),
               (''validationLevel'', JStr ''moderate''),
               (''validationAction'', JStr ''error'')]
              (case options of None \<Rightarrow> [] | Some opts \<Rightarrow> opts))]\<rparr>, Inl e)) \<and>
   (refuses w (length (calls w)) (db w) GetCollectionNames = None \<longrightarrow>
    map_of (db w) name \<noteq> None \<longrightarrow>
    refuses w (Suc (length (calls w))) (db w)
      (RunCommand
         [(''collMod'', JStr name),
          (''validator'', JObj [(''$jsonSchema'', validator)]),
          (''validationLevel'', JStr ''moderate''),
          (''validationAction'', JStr ''error'')]) = Some e \<longrightarrow>
      ensureCollectionWithValidator name validator options w =
        (w\<lparr>calls := calls w @ [GetCollectionNames,
            RunCommand
              [(''collMod'', JStr name),
               (''validator'', JObj [(''$jsonSchema'', validator)]),
               (''validationLevel'', JStr ''moderate''),
               (''validationAction'', JStr ''error'')]]\<rparr>, Inl e)) \<and>
   (ensureCollectionWithValidator name validator options w = (w', Inl e) \<longrightarrow>
      db w' = db w \<and> printed w' = printed w) \<and>
   (ensureCollectionWithValidator ''users'' usersSchema None w = (w1, Inr ()) \<longrightarrow>
    ensureCollectionWithValidator ''onboarding_steps'' onboardingStepsSchema None w1 = (w2, Inl e) \<longrightarrow>
      init_mongo w = (w2, Inl e) \<and> db w2 = db w1)"
proof (intro conjI impI)
  assume "ensureCollectionWithValidator name validator options w = (w', Inl e)"
  then show "db w' = db w" and "printed w' = printed w"
    by (auto simp: ensureCollection_defs split: option.splits if_splits list.splits json.splits)
next
  assume "ensureCollectionWithValidator ''users'' usersSchema None w = (w1, Inr ())"
    and "ensureCollectionWithValidator ''onboarding_steps'' onboardingStepsSchema None w1 = (w2, Inl e)"
  then show "init_mongo w = (w2, Inl e)"
    by (simp add: init_mongo_def)
next
  assume "ensureCollectionWithValidator ''onboarding_steps'' onboardingStepsSchema None w1 = (w2, Inl e)"
  then show "db w2 = db w1"
    by (auto simp: ensureCollection_defs split: option.splits if_splits list.splits json.splits)
qed (simp_all add: ensureCollection_defs split: option.splits)

theorem store_failure_propagates_witness:
  "ensureCollectionWithValidator ''onboarding_steps'' onboardingStepsSchema None denying_world =
     (denying_world\<lparr>
        calls := [GetCollectionNames,
                  CreateCollection ''onboarding_steps''
                    [(''validator'', JObj [(''$jsonSchema'', onboardingStepsSchema)]),
                     (''validationLevel'', JStr ''moderate''),
                     (''validationAction'', JStr ''error'')]]\<rparr>,
      Inl (Refused ''not authorized'')) \<and>
   init_mongo denying_world =
     (denying_world\<lparr>
        db := [(''users'', new_collection
                 [(''validator'', JObj [(''$jsonSchema'', usersSchema)]),
                  (''validationLevel'', JStr ''moderate''),
                  (''validationAction'', JStr ''error'')])],
        calls := [GetCollectionNames,
                  CreateCollection ''users''
                    [(''validator'', JObj [(''$jsonSchema'', usersSchema)]),
                     (''validationLevel'', JStr ''moderate''),
                     (''validationAction'', JStr ''error'')],
                  GetCollectionNames,
                  CreateCollection ''onboarding_steps''
                    [(''validator'', JObj [(''$jsonSchema'', onboardingStepsSchema)]),
                     (''validationLevel'', JStr ''moderate''),
                     (''validationAction'', JStr ''error'')]],
        printed := [Created_collection ''users'']\<rparr>,
      Inl (Refused ''not authorized''))"
proof -
  let ?w1 = "fst (ensureCollectionWithValidator ''users'' usersSchema None denying_world)"
  let ?w2 = "fst (ensureCollectionWithValidator ''onboarding_steps'' onboardingStepsSchema None ?w1)"
  have 1: "ensureCollectionWithValidator ''users'' usersSchema None denying_world = (?w1, Inr ())"
    by (simp add: ensureCollection_defs denying_world_def)
  have 2: "ensureCollectionWithValidator ''onboarding_steps'' onboardingStepsSchema None ?w1 =
      (?w2, Inl (Refused ''not authorized''))"
    by (simp add: ensureCollection_defs denying_world_def)
  from store_failure_propagates
    [of denying_world _ _ _ _ _ ?w1 ?w2, THEN conjunct2, THEN conjunct2, THEN conjunct2, THEN conjunct2]
    1 2
  have "init_mongo denying_world = (?w2, Inl (Refused ''not authorized''))"
    by blast
  then have run: "init_mongo denying_world =
     (denying_world\<lparr>
        db := [(''users'', new_collection
                 [(''validator'', JObj [(''$jsonSchema'', usersSchema)]),
                  (''validationLevel'', JStr ''moderate''),
                  (''validationAction'', JStr ''error'')])],
        calls := [GetCollectionNames,
                  CreateCollection ''users''
                    [(''validator'', JObj [(''$jsonSchema'', usersSchema)]),
                     (''validationLevel'', JStr ''moderate''),
                     (''validationAction'', JStr ''error'')],
                  GetCollectionNames,
                  CreateCollection ''onboarding_steps''
                    [(''validator'', JObj [(''$jsonSchema'', onboardingStepsSchema)]),
                     (''validationLevel'', JStr ''moderate''),
                     (''validationAction'', JStr ''error'')]],
        printed := [Created_collection ''users'']\<rparr>,
      Inl (Refused ''not authorized''))"
    by (simp add: ensureCollection_defs denying_world_def)
  have step: "ensureCollectionWithValidator ''onboarding_steps'' onboardingStepsSchema None
       denying_world =
     (denying_world\<lparr>
        calls := [GetCollectionNames,
                  CreateCollection ''onboarding_steps''
                    [(''validator'', JObj [(''$jsonSchema'', onboardingStepsSchema)]),
                     (''validationLevel'', JStr ''moderate''),
                     (''validationAction'', JStr ''error'')]]\<rparr>,
      Inl (Refused ''not authorized''))"
    using store_failure_propagates
      [of denying_world "Refused ''not authorized''" "''onboarding_steps''"
          onboardingStepsSchema None, THEN conjunct2, THEN conjunct1]
    by (simp add: denying_world_def)
  from step run show ?thesis ..
qed

text \<open>The launcher passes a non-zero status of the shell on as its own exit status.\<close>

lemma init_db_exit_nonzero:
  "spawn_error result = None \<Longrightarrow> spawn_status result = Some s \<Longrightarrow> s \<noteq> 0 \<Longrightarrow>
   init_db_exit result = s"
  by (simp add: init_db_exit_def)

section \<open>\<^verbatim>\<open>ensureIndexes\<close>: skipping by name\<close>

lemma createIndex_calls:
  "calls (fst (createIndex name k idx w)) = calls w @ [CreateIndex name k idx]"
  by (simp add: createIndex_def request_def Let_def split: option.splits)

lemma calls_print [simp]: "calls (print m w) = calls w"
  by (simp add: print_def)

lemma db_print [simp]: "db (print m w) = db w"
  by (simp add: print_def)

lemma forEach_calls_prefix:
  "\<exists>k. calls (fst (ensureIndexes_forEach name existing specs w)) =
     calls w @ take k (map (\<lambda>s. CreateIndex name (idx_key s) s)
                        (filter (\<lambda>s. idx_name s \<notin> set existing) specs))"
proof (induction specs arbitrary: w)
  case Nil
  show ?case by simp
next
  case (Cons idx rest)
  let ?f = "\<lambda>s. CreateIndex name (idx_key s) s"
  let ?absent = "filter (\<lambda>s. idx_name s \<notin> set existing)"
  show ?case
  proof (cases "idx_name idx \<in> set existing")
    case True
    from Cons.IH [of "print (Index_exists (idx_name idx) name) w"] True
    show ?thesis by simp
  next
    case False
    obtain w1 r where c: "createIndex name (idx_key idx) idx w = (w1, r)"
      by (cases "createIndex name (idx_key idx) idx w")
    have w1: "calls w1 = calls w @ [?f idx]"
      using createIndex_calls [of name "idx_key idx" idx w] c by simp
    show ?thesis
    proof (cases r)
      case (Inl e)
      have "calls (fst (ensureIndexes_forEach name existing (idx # rest) w)) =
          calls w @ take 1 (map ?f (?absent (idx # rest)))"
        using False c Inl w1 by simp
      then show ?thesis ..
    next
      case (Inr u)
      from Cons.IH [of "print (Created_index (idx_name idx) name) w1"]
      obtain k where "calls (fst (ensureIndexes_forEach name existing rest
            (print (Created_index (idx_name idx) name) w1))) =
          calls w1 @ take k (map ?f (?absent rest))"
        by auto
      then have "calls (fst (ensureIndexes_forEach name existing (idx # rest) w)) =
          calls w @ take (Suc k) (map ?f (?absent (idx # rest)))"
        using False c Inr w1 by simp
      then show ?thesis ..
    qed
  qed
qed

lemma forEach_calls_complete:
  "snd (ensureIndexes_forEach name existing specs w) = Inr () \<Longrightarrow>
   calls (fst (ensureIndexes_forEach name existing specs w)) =
     calls w @ map (\<lambda>s. CreateIndex name (idx_key s) s)
                 (filter (\<lambda>s. idx_name s \<notin> set existing) specs)"
proof (induction specs arbitrary: w)
  case Nil
  show ?case by simp
next
  case (Cons idx rest)
  show ?case
  proof (cases "idx_name idx \<in> set existing")
    case True
    with Cons show ?thesis by simp
  next
    case False
    obtain w1 r where c: "createIndex name (idx_key idx) idx w = (w1, r)"
      by (cases "createIndex name (idx_key idx) idx w")
    have w1: "calls w1 = calls w @ [CreateIndex name (idx_key idx) idx]"
      using createIndex_calls [of name "idx_key idx" idx w] c by simp
    from Cons.prems False c obtain u where r: "r = Inr u"
      by (cases r) auto
    from Cons.prems False c r
    have "snd (ensureIndexes_forEach name existing rest
        (print (Created_index (idx_name idx) name) w1)) = Inr ()"
      by simp
    from Cons.IH [OF this] False c r w1 show ?thesis by simp
  qed
qed

lemma getIndexes_calls:
  "getIndexes name w = (w1, r) \<Longrightarrow> calls w1 = calls w @ [GetIndexes name]"
  by (auto simp: getIndexes_def request_def split: option.splits)

text \<open>
  C3: when \<^verbatim>\<open>getIndexes\<close> answers with the live indexes, \<^verbatim>\<open>ensureIndexes\<close> issues,
  after that one read, \<^verbatim>\<open>createIndex\<close> calls only for specifications whose name is not
  among the live index names, in the order of the list (a prefix of them, since a failing
  call ends the loop); when it returns normally these are exactly the calls for all
  specifications whose names are absent.  For a specification whose name is live no
  \<^verbatim>\<open>createIndex\<close> call is in the log, whatever its key, uniqueness flag or partial
  filter: the test reads the name only.
\<close>

theorem ensureIndexes_skips_by_name:
  assumes "getIndexes name w = (w1, Inr live)"
  shows "(\<exists>k. calls (fst (ensureIndexes name specs w)) =
            calls w @ GetIndexes name #
              take k (map (\<lambda>s. CreateIndex name (idx_key s) s)
                        (filter (\<lambda>s. idx_name s \<notin> set (map idx_name live)) specs))) \<and>
         (snd (ensureIndexes name specs w) = Inr () \<longrightarrow>
            calls (fst (ensureIndexes name specs w)) =
              calls w @ GetIndexes name #
                map (\<lambda>s. CreateIndex name (idx_key s) s)
                  (filter (\<lambda>s. idx_name s \<notin> set (map idx_name live)) specs)) \<and>
         (idx_name s \<in> set (map idx_name live) \<longrightarrow>
            CreateIndex n k s \<notin> set (drop (length (calls w)) (calls (fst (ensureIndexes name specs w)))))"
proof -
  let ?new = "map (\<lambda>s. CreateIndex name (idx_key s) s)
                (filter (\<lambda>s. idx_name s \<notin> set (map idx_name live)) specs)"
  have e: "ensureIndexes name specs w = ensureIndexes_forEach name (map idx_name live) specs w1"
    using assms by (simp add: ensureIndexes_def)
  have w1: "calls w1 = calls w @ [GetIndexes name]"
    using assms by (rule getIndexes_calls)
  obtain k where k: "calls (fst (ensureIndexes name specs w)) = calls w @ GetIndexes name # take k ?new"
    using forEach_calls_prefix [of name "map idx_name live" specs w1] e w1 by auto
  have full: "snd (ensureIndexes name specs w) = Inr () \<longrightarrow>
      calls (fst (ensureIndexes name specs w)) = calls w @ GetIndexes name # ?new"
    using forEach_calls_complete [of name "map idx_name live" specs w1] e w1 by simp
  have skip: "idx_name s \<in> set (map idx_name live) \<longrightarrow>
      CreateIndex n k' s \<notin> set (drop (length (calls w)) (calls (fst (ensureIndexes name specs w))))"
    for k'
  proof
    assume live: "idx_name s \<in> set (map idx_name live)"
    have "CreateIndex n k' s \<notin> set ?new"
      using live by auto
    then have "CreateIndex n k' s \<notin> set (take k ?new)"
      by (meson in_set_takeD)
    then show "CreateIndex n k' s \<notin> set (drop (length (calls w)) (calls (fst (ensureIndexes name specs w))))"
      by (simp add: k)
  qed
  from k full skip show ?thesis by blast
qed

theorem ensureIndexes_skips_by_name_witness:
  "getIndexes ''users'' legacy_world =
     (legacy_world\<lparr>calls := [GetIndexes ''users'']\<rparr>,
      Inr [id_index,
           \<lparr>idx_key = [(''email'', - 1)], idx_name = ''uniq_email'', idx_unique = None,
              idx_partialFilterExpression = None\<rparr>]) \<and>
   snd (ensureIndexes ''users'' usersIndexes legacy_world) = Inr () \<and>
   calls (fst (ensureIndexes ''users'' usersIndexes legacy_world)) =
     GetIndexes ''users'' # map (\<lambda>s. CreateIndex ''users'' (idx_key s) s) (tl usersIndexes) \<and>
   idx_name (hd usersIndexes) = ''uniq_email'' \<and>
   idx_key (hd usersIndexes) = [(''email'', 1)]"
proof -
  have g: "getIndexes ''users'' legacy_world =
     (legacy_world\<lparr>calls := [GetIndexes ''users'']\<rparr>,
      Inr [id_index,
           \<lparr>idx_key = [(''email'', - 1)], idx_name = ''uniq_email'', idx_unique = None,
              idx_partialFilterExpression = None\<rparr>])"
    by (simp add: getIndexes_def request_def legacy_world_def)
  have s: "snd (ensureIndexes ''users'' usersIndexes legacy_world) = Inr ()"
    by (simp add: ensureIndexes_def getIndexes_def request_def legacy_world_def usersIndexes_def
        createIndex_def print_def id_index_def Let_def)
  have c: "calls legacy_world = []"
    by (simp add: legacy_world_def)
  from ensureIndexes_skips_by_name [OF g, of usersIndexes] s c
  have "calls (fst (ensureIndexes ''users'' usersIndexes legacy_world)) =
     GetIndexes ''users'' # map (\<lambda>s. CreateIndex ''users'' (idx_key s) s) (tl usersIndexes)"
    by (simp add: usersIndexes_def id_index_def)
  with g s show ?thesis
    by (simp add: usersIndexes_def)
qed

section \<open>Seeding\<close>

lemma estimatedDocumentCount_eq:
  "estimatedDocumentCount name w =
     (w\<lparr>calls := calls w @ [EstimatedDocumentCount name]\<rparr>,
      case refuses w (length (calls w)) (db w) (EstimatedDocumentCount name) of
        Some e \<Rightarrow> Inl e
      | None \<Rightarrow> Inr (length (documents_of (db w) name)))"
  by (simp add: estimatedDocumentCount_def request_def documents_of_def split: option.splits)

lemma insertMany_eq:
  "insertMany name docs w =
     (case refuses w (length (calls w)) (db w) (InsertMany name docs) of
        Some e \<Rightarrow> (w\<lparr>calls := calls w @ [InsertMany name docs]\<rparr>, Inl e)
      | None \<Rightarrow>
          (w\<lparr>calls := calls w @ [InsertMany name docs],
              db := AList.update name
                ((case map_of (db w) name of None \<Rightarrow> new_collection [] | Some c \<Rightarrow> c)
                   \<lparr>coll_documents := documents_of (db w) name @ docs\<rparr>) (db w)\<rparr>,
           Inr ()))"
  by (simp add: insertMany_def request_def documents_of_def new_collection_def Let_def
      split: option.splits)

lemmas seedIfEmpty_defs =
  seedIfEmpty_def estimatedDocumentCount_eq insertMany_eq new_Date_def print_def

text \<open>
  C4: when the count is answered and \<^verbatim>\<open>onboarding_steps\<close> holds at least one document,
  the seed step issues the count and nothing else, leaves the database as it is and
  prints the number of documents found; when the collection holds none, the step issues
  the count and then one \<^verbatim>\<open>insertMany\<close> whose argument is the list of the four seed
  records (keys \<^verbatim>\<open>account\<close>, \<^verbatim>\<open>profile\<close>, \<^verbatim>\<open>preferences\<close>, \<^verbatim>\<open>summary\<close> in this order),
  and when the store accepts the insert the collection holds exactly these records.
\<close>

theorem seedIfEmpty_guard:
  assumes "refuses w (length (calls w)) (db w) (EstimatedDocumentCount ''onboarding_steps'') = None"
  shows "(documents_of (db w) ''onboarding_steps'' \<noteq> [] \<longrightarrow>
            seedIfEmpty w =
              (w\<lparr>calls := calls w @ [EstimatedDocumentCount ''onboarding_steps''],
                  printed := printed w @
                    [Steps_contain (length (documents_of (db w) ''onboarding_steps''))]\<rparr>,
               Inr ())) \<and>
         (documents_of (db w) ''onboarding_steps'' = [] \<longrightarrow>
            calls (fst (seedIfEmpty w)) =
              calls w @ [EstimatedDocumentCount ''onboarding_steps'',
                         InsertMany ''onboarding_steps'' (seedRecords (JDate (time w (reads w))))] \<and>
            length (seedRecords (JDate (time w (reads w)))) = 4 \<and>
            map (field ''key'') (seedRecords (JDate (time w (reads w)))) =
              [Some (JStr ''account''), Some (JStr ''profile''),
               Some (JStr ''preferences''), Some (JStr ''summary'')]) \<and>
         (documents_of (db w) ''onboarding_steps'' = [] \<longrightarrow>
          refuses w (Suc (length (calls w))) (db w)
            (InsertMany ''onboarding_steps'' (seedRecords (JDate (time w (reads w))))) = None \<longrightarrow>
            snd (seedIfEmpty w) = Inr () \<and>
            documents_of (db (fst (seedIfEmpty w))) ''onboarding_steps'' =
              seedRecords (JDate (time w (reads w))))"
proof (intro conjI impI)
  assume "documents_of (db w) ''onboarding_steps'' \<noteq> []"
  then show "seedIfEmpty w =
      (w\<lparr>calls := calls w @ [EstimatedDocumentCount ''onboarding_steps''],
          printed := printed w @
            [Steps_contain (length (documents_of (db w) ''onboarding_steps''))]\<rparr>,
       Inr ())"
    using assms by (simp add: seedIfEmpty_defs split: option.splits)
next
  assume "documents_of (db w) ''onboarding_steps'' = []"
  then show "calls (fst (seedIfEmpty w)) =
      calls w @ [EstimatedDocumentCount ''onboarding_steps'',
                 InsertMany ''onboarding_steps'' (seedRecords (JDate (time w (reads w))))]"
    using assms by (simp add: seedIfEmpty_defs split: option.splits)
next
  show "length (seedRecords (JDate (time w (reads w)))) = 4"
    by (simp add: seedRecords_def)
next
  show "map (field ''key'') (seedRecords (JDate (time w (reads w)))) =
      [Some (JStr ''account''), Some (JStr ''profile''),
       Some (JStr ''preferences''), Some (JStr ''summary'')]"
    by (simp add: seedRecords_def field_def)
next
  assume "documents_of (db w) ''onboarding_steps'' = []"
    and "refuses w (Suc (length (calls w))) (db w)
      (InsertMany ''onboarding_steps'' (seedRecords (JDate (time w (reads w))))) = None"
  then show "snd (seedIfEmpty w) = Inr ()"
    and "documents_of (db (fst (seedIfEmpty w))) ''onboarding_steps'' =
      seedRecords (JDate (time w (reads w)))"
    using assms
    by (simp_all add: seedIfEmpty_defs documents_of_update)
qed

theorem seedIfEmpty_guard_witness:
  "refuses legacy_world (length (calls legacy_world)) (db legacy_world)
     (EstimatedDocumentCount ''onboarding_steps'') = None \<and>
   documents_of (db legacy_world) ''onboarding_steps'' = [JObj [(''key'', JStr ''welcome'')]] \<and>
   seedIfEmpty legacy_world =
     (legacy_world\<lparr>calls := [EstimatedDocumentCount ''onboarding_steps''],
                    printed := [Steps_contain 1]\<rparr>, Inr ()) \<and>
   refuses emptied_world (length (calls emptied_world)) (db emptied_world)
     (EstimatedDocumentCount ''onboarding_steps'') = None \<and>
   documents_of (db emptied_world) ''onboarding_steps'' = [] \<and>
   calls (fst (seedIfEmpty emptied_world)) =
     [EstimatedDocumentCount ''onboarding_steps'',
      InsertMany ''onboarding_steps'' (seedRecords (JDate 1000))] \<and>
   snd (seedIfEmpty emptied_world) = Inr () \<and>
   documents_of (db (fst (seedIfEmpty emptied_world))) ''onboarding_steps'' =
     seedRecords (JDate 1000)"
  using seedIfEmpty_guard [of legacy_world] seedIfEmpty_guard [of emptied_world]
  by (simp add: legacy_world_def emptied_world_def documents_of_def)

text \<open>
  C8: the seed list consists of four records with keys \<^verbatim>\<open>account\<close> (order 0, required),
  \<^verbatim>\<open>profile\<close> (order 1, required), \<^verbatim>\<open>preferences\<close> (order 2, not required) and
  \<^verbatim>\<open>summary\<close> (order 3, required), each with a title and a description.
\<close>

theorem seedRecords_content:
  "map (\<lambda>d. (field ''key'' d, field ''order'' d, field ''isRequired'' d)) (seedRecords now) =
     [(Some (JStr ''account''), Some (JNum 0), Some (JBool True)),
      (Some (JStr ''profile''), Some (JNum 1), Some (JBool True)),
      (Some (JStr ''preferences''), Some (JNum 2), Some (JBool False)),
      (Some (JStr ''summary''), Some (JNum 3), Some (JBool True))] \<and>
   map (field ''title'') (seedRecords now) =
     [Some (JStr ''Create Account''), Some (JStr ''Complete Profile''),
      Some (JStr ''Preferences''), Some (JStr ''Summary'')] \<and>
   map (field ''description'') (seedRecords now) =
     [Some (JStr ''Set your email and password or use an OAuth provider.''),
      Some (JStr ''Tell us about yourself to personalize your experience.''),
      Some (JStr ''Choose your interests and notification settings.''),
      Some (JStr ''Review and confirm your details.'')]"
  by (simp add: seedRecords_def field_def)

text \<open>
  C9: when the seed insert happens, the clock is read once, and each of the four
  documents passed to \<^verbatim>\<open>insertMany\<close> has that one reading in both \<^verbatim>\<open>createdAt\<close> and
  \<^verbatim>\<open>updatedAt\<close>.
\<close>

theorem seed_timestamps_shared:
  assumes "refuses w (length (calls w)) (db w) (EstimatedDocumentCount ''onboarding_steps'') = None"
    and "documents_of (db w) ''onboarding_steps'' = []"
  shows "\<exists>docs. calls (fst (seedIfEmpty w)) =
           calls w @ [EstimatedDocumentCount ''onboarding_steps'',
                      InsertMany ''onboarding_steps'' docs] \<and>
         map (\<lambda>d. (field ''createdAt'' d, field ''updatedAt'' d)) docs =
           replicate 4 (Some (JDate (time w (reads w))), Some (JDate (time w (reads w)))) \<and>
         reads (fst (seedIfEmpty w)) = Suc (reads w)"
proof -
  let ?docs = "seedRecords (JDate (time w (reads w)))"
  have "calls (fst (seedIfEmpty w)) =
      calls w @ [EstimatedDocumentCount ''onboarding_steps'', InsertMany ''onboarding_steps'' ?docs]"
    using assms by (simp add: seedIfEmpty_defs split: option.splits)
  moreover have "map (\<lambda>d. (field ''createdAt'' d, field ''updatedAt'' d)) ?docs =
      replicate 4 (Some (JDate (time w (reads w))), Some (JDate (time w (reads w))))"
    by (simp add: seedRecords_def field_def numeral_eq_Suc)
  moreover have "reads (fst (seedIfEmpty w)) = Suc (reads w)"
    using assms by (simp add: seedIfEmpty_defs split: option.splits)
  ultimately show ?thesis by blast
qed

theorem seed_timestamps_shared_witness:
  "refuses emptied_world (length (calls emptied_world)) (db emptied_world)
     (EstimatedDocumentCount ''onboarding_steps'') = None \<and>
   documents_of (db emptied_world) ''onboarding_steps'' = [] \<and>
   (\<exists>docs. calls (fst (seedIfEmpty emptied_world)) =
           [EstimatedDocumentCount ''onboarding_steps'', InsertMany ''onboarding_steps'' docs] \<and>
         map (\<lambda>d. (field ''createdAt'' d, field ''updatedAt'' d)) docs =
           replicate 4 (Some (JDate 1000), Some (JDate 1000)) \<and>
         reads (fst (seedIfEmpty emptied_world)) = 1)"
  using seed_timestamps_shared [of emptied_world]
  by (simp add: emptied_world_def documents_of_def)

section \<open>Running the script again\<close>

subsection \<open>The loop over the index specifications\<close>

lemma find_Some_name:
  "find (\<lambda>i. idx_name i = x) xs = Some i \<Longrightarrow> x \<in> idx_name ` set xs"
  by (induction xs) (auto split: if_splits)

lemma find_None_name:
  "find (\<lambda>i. idx_name i = x) xs = None \<longleftrightarrow> x \<notin> idx_name ` set xs"
  by (auto simp: find_None_iff)

lemma createIndex_Inr:
  assumes "createIndex name k idx w = (w1, Inr u)" and "map_of (db w) name = Some c"
  shows "\<exists>c1. map_of (db w1) name = Some c1 \<and> coll_options c1 = coll_options c \<and>
           coll_documents c1 = coll_documents c \<and>
           idx_name ` set (coll_indexes c1) = insert (idx_name idx) (idx_name ` set (coll_indexes c))"
  using assms
  by (auto simp: createIndex_def request_def Let_def AList.update_conv'
      split: option.splits if_splits dest: find_Some_name)

lemma createIndex_frame:
  "n \<noteq> name \<Longrightarrow> map_of (db (fst (createIndex name k idx w))) n = map_of (db w) n"
  by (simp add: createIndex_def request_def Let_def AList.update_conv' split: option.splits)

lemma createIndex_refuses [simp]: "refuses (fst (createIndex name k idx w)) = refuses w"
  by (simp add: createIndex_def request_def Let_def split: option.splits)

lemma createIndex_accepted:
  assumes "refuses w = (\<lambda>n d c. None)" and "map_of (db w) name = Some c"
    and "idx_name idx \<notin> idx_name ` set (coll_indexes c)"
  shows "snd (createIndex name k idx w) = Inr ()"
  using assms
  by (simp add: createIndex_def request_def Let_def find_None_name [THEN iffD2])

lemma refuses_print [simp]: "refuses (print m w) = refuses w"
  by (simp add: print_def)

lemma forEach_Inr:
  "ensureIndexes_forEach name existing specs w = (w', Inr u) \<Longrightarrow>
   map_of (db w) name = Some c \<Longrightarrow>
   set existing \<subseteq> idx_name ` set (coll_indexes c) \<Longrightarrow>
   \<exists>c'. map_of (db w') name = Some c' \<and> coll_options c' = coll_options c \<and>
        coll_documents c' = coll_documents c \<and>
        idx_name ` set (coll_indexes c) \<union> idx_name ` set specs \<subseteq> idx_name ` set (coll_indexes c')"
proof (induction specs arbitrary: w c)
  case Nil
  then show ?case by simp
next
  case (Cons idx rest)
  show ?case
  proof (cases "idx_name idx \<in> set existing")
    case True
    with Cons.prems have
      "ensureIndexes_forEach name existing rest (print (Index_exists (idx_name idx) name) w) = (w', Inr u)"
      by simp
    moreover have "map_of (db (print (Index_exists (idx_name idx) name) w)) name = Some c"
      using Cons.prems(2) by simp
    ultimately obtain c' where
      c': "map_of (db w') name = Some c'" "coll_options c' = coll_options c"
        "coll_documents c' = coll_documents c"
        "idx_name ` set (coll_indexes c) \<union> idx_name ` set rest \<subseteq> idx_name ` set (coll_indexes c')"
      using Cons.IH Cons.prems(3) by blast
    have "idx_name idx \<in> idx_name ` set (coll_indexes c')"
      using True Cons.prems(3) c'(4) by blast
    with c' show ?thesis
      by auto
  next
    case False
    obtain w1 r where c: "createIndex name (idx_key idx) idx w = (w1, r)"
      by (cases "createIndex name (idx_key idx) idx w")
    from Cons.prems(1) False c obtain v where r: "r = Inr v"
      by (cases r) auto
    from createIndex_Inr [OF c [unfolded r] Cons.prems(2)] obtain c1 where
      c1: "map_of (db w1) name = Some c1" "coll_options c1 = coll_options c"
        "coll_documents c1 = coll_documents c"
        "idx_name ` set (coll_indexes c1) = insert (idx_name idx) (idx_name ` set (coll_indexes c))"
      by blast
    from Cons.prems(1) False c r have
      "ensureIndexes_forEach name existing rest (print (Created_index (idx_name idx) name) w1) = (w', Inr u)"
      by simp
    moreover have "map_of (db (print (Created_index (idx_name idx) name) w1)) name = Some c1"
      using c1(1) by simp
    moreover have "set existing \<subseteq> idx_name ` set (coll_indexes c1)"
      using Cons.prems(3) c1(4) by auto
    ultimately obtain c' where
      c': "map_of (db w') name = Some c'" "coll_options c' = coll_options c1"
        "coll_documents c' = coll_documents c1"
        "idx_name ` set (coll_indexes c1) \<union> idx_name ` set rest \<subseteq> idx_name ` set (coll_indexes c')"
      using Cons.IH by blast
    have "idx_name ` set (coll_indexes c) \<union> idx_name ` set (idx # rest)
        \<subseteq> idx_name ` set (coll_indexes c')"
      using c1(4) c'(4) by auto
    with c' c1 show ?thesis
      by auto
  qed
qed

lemma forEach_frame:
  "n \<noteq> name \<Longrightarrow>
   map_of (db (fst (ensureIndexes_forEach name existing specs w))) n = map_of (db w) n"
proof (induction specs arbitrary: w)
  case Nil
  show ?case by simp
next
  case (Cons idx rest)
  show ?case
  proof (cases "idx_name idx \<in> set existing")
    case True
    with Cons show ?thesis by simp
  next
    case False
    obtain w1 r where c: "createIndex name (idx_key idx) idx w = (w1, r)"
      by (cases "createIndex name (idx_key idx) idx w")
    have f: "map_of (db w1) n = map_of (db w) n"
      using createIndex_frame [OF Cons.prems, of "idx_key idx" idx w] c by simp
    show ?thesis
    proof (cases r)
      case (Inl e)
      with False c f show ?thesis by simp
    next
      case (Inr v)
      with False c f Cons.IH [OF Cons.prems, of "print (Created_index (idx_name idx) name) w1"]
      show ?thesis by simp
    qed
  qed
qed

lemma forEach_refuses [simp]:
  "refuses (fst (ensureIndexes_forEach name existing specs w)) = refuses w"
proof (induction specs arbitrary: w)
  case Nil
  show ?case by simp
next
  case (Cons idx rest)
  obtain w1 r where c: "createIndex name (idx_key idx) idx w = (w1, r)"
    by (cases "createIndex name (idx_key idx) idx w")
  have "refuses w1 = refuses w"
    using createIndex_refuses [of name "idx_key idx" idx w] c by simp
  with c Cons show ?case
    by (cases r) simp_all
qed

lemma forEach_all_live:
  "set (map idx_name specs) \<subseteq> set existing \<Longrightarrow>
   db (fst (ensureIndexes_forEach name existing specs w)) = db w"
  by (induction specs arbitrary: w) simp_all

lemma forEach_accepted:
  "refuses w = (\<lambda>n d c. None) \<Longrightarrow> map_of (db w) name = Some c \<Longrightarrow>
   distinct (map idx_name specs) \<Longrightarrow>
   idx_name ` set (coll_indexes c) \<inter> {x \<in> idx_name ` set specs. x \<notin> set existing} = {} \<Longrightarrow>
   snd (ensureIndexes_forEach name existing specs w) = Inr ()"
proof (induction specs arbitrary: w c)
  case Nil
  show ?case by simp
next
  case (Cons idx rest)
  show ?case
  proof (cases "idx_name idx \<in> set existing")
    case True
    have "snd (ensureIndexes_forEach name existing rest (print (Index_exists (idx_name idx) name) w)) = Inr ()"
      using Cons.prems by (intro Cons.IH [of _ c]) auto
    with True show ?thesis by simp
  next
    case False
    obtain w1 r where c: "createIndex name (idx_key idx) idx w = (w1, r)"
      by (cases "createIndex name (idx_key idx) idx w")
    have fresh: "idx_name idx \<notin> idx_name ` set (coll_indexes c)"
      using Cons.prems(4) False by auto
    have "snd (createIndex name (idx_key idx) idx w) = Inr ()"
      using Cons.prems(1,2) fresh by (rule createIndex_accepted)
    with c have r: "r = Inr ()" by simp
    from createIndex_Inr [OF c [unfolded r] Cons.prems(2)] obtain c1 where
      c1: "map_of (db w1) name = Some c1"
        "idx_name ` set (coll_indexes c1) = insert (idx_name idx) (idx_name ` set (coll_indexes c))"
      by blast
    have w1: "refuses w1 = (\<lambda>n d c. None)"
      using createIndex_refuses [of name "idx_key idx" idx w] c Cons.prems(1) by simp
    have "snd (ensureIndexes_forEach name existing rest (print (Created_index (idx_name idx) name) w1)) = Inr ()"
      using Cons.prems(3,4) c1 w1 by (intro Cons.IH [of _ c1]) auto
    with False c r show ?thesis by simp
  qed
qed

subsection \<open>The steps of the script\<close>

lemma Object_assign_triv:
  "(\<And>k v. (k, v) \<in> set source \<Longrightarrow> map_of target k = Some v) \<Longrightarrow>
   Object_assign target source = target"
  unfolding Object_assign_def
proof (induction source)
  case Nil
  show ?case by simp
next
  case (Cons p ps)
  obtain k v where p: "p = (k, v)" by (cases p)
  have "AList.update k v target = target"
    using Cons.prems [of k v] p by (simp add: AList.update_triv)
  with Cons p show ?case by simp
qed

lemma Object_assign_policy_idem:
  "Object_assign (Object_assign opts [(a, x), (b, y), (c, z)]) [(a, x), (b, y), (c, z)] =
   Object_assign opts [(a, x), (b, y), (c, z)]"
  if "a \<noteq> b" "a \<noteq> c" "b \<noteq> c"
  using that by (intro Object_assign_triv) (auto simp: map_of_Object_assign)

lemma ensureCollection_Inr:
  assumes "ensureCollectionWithValidator name validator None w = (w', Inr u)"
  shows "\<exists>c. map_of (db w') name = Some c \<and>
           Object_assign (coll_options c)
             [(''validator'', JObj [(''$jsonSchema'', validator)]),
              (''validationLevel'', JStr ''moderate''),
              (''validationAction'', JStr ''error'')] = coll_options c"
proof (cases "map_of (db w) name")
  case None
  with assms have "map_of (db w') name = Some (new_collection
      [(''validator'', JObj [(''$jsonSchema'', validator)]),
       (''validationLevel'', JStr ''moderate''),
       (''validationAction'', JStr ''error'')])"
    by (auto simp: ensureCollection_defs map_add_def split: option.splits)
  then show ?thesis
    by (simp add: new_collection_def Object_assign_def)
next
  case (Some c)
  with assms have "map_of (db w') name = Some (c\<lparr>coll_options := Object_assign (coll_options c)
      [(''validator'', JObj [(''$jsonSchema'', validator)]),
       (''validationLevel'', JStr ''moderate''),
       (''validationAction'', JStr ''error'')]\<rparr>)"
    by (auto simp: ensureCollection_defs AList.update_conv' split: option.splits)
  then show ?thesis
    by (simp add: Object_assign_policy_idem)
qed

lemma ensureCollection_frame:
  "n \<noteq> name \<Longrightarrow>
   map_of (db (fst (ensureCollectionWithValidator name validator options w))) n = map_of (db w) n"
  by (simp add: ensureCollection_defs AList.update_conv' map_add_def split: option.splits)

lemma ensureCollection_refuses [simp]:
  "refuses (fst (ensureCollectionWithValidator name validator options w)) = refuses w"
  by (simp add: ensureCollection_defs split: option.splits)

lemma ensureCollection_stable:
  assumes "map_of (db w) name = Some c"
    and "Object_assign (coll_options c)
       [(''validator'', JObj [(''$jsonSchema'', validator)]),
        (''validationLevel'', JStr ''moderate''),
        (''validationAction'', JStr ''error'')] = coll_options c"
  shows "db (fst (ensureCollectionWithValidator name validator options w)) = db w"
  using assms
  by (simp add: ensureCollection_defs AList.update_triv split: option.splits)

lemma ensureCollection_accepted:
  "refuses w = (\<lambda>n d c. None) \<Longrightarrow>
   snd (ensureCollectionWithValidator name validator options w) = Inr ()"
  by (simp add: ensureCollection_defs split: option.splits)

lemma getIndexes_eq:
  "getIndexes name w =
     (w\<lparr>calls := calls w @ [GetIndexes name]\<rparr>,
      case refuses w (length (calls w)) (db w) (GetIndexes name) of
        Some e \<Rightarrow> Inl e
      | None \<Rightarrow> (case map_of (db w) name of
                   None \<Rightarrow> Inl NamespaceNotFound
                 | Some c \<Rightarrow> Inr (coll_indexes c)))"
  by (simp add: getIndexes_def request_def split: option.splits)

lemma ensureIndexes_Inr:
  assumes "ensureIndexes name specs w = (w', Inr u)"
  shows "\<exists>c c'. map_of (db w) name = Some c \<and> map_of (db w') name = Some c' \<and>
           coll_options c' = coll_options c \<and> coll_documents c' = coll_documents c \<and>
           idx_name ` set specs \<subseteq> idx_name ` set (coll_indexes c')"
proof -
  let ?w1 = "w\<lparr>calls := calls w @ [GetIndexes name]\<rparr>"
  from assms obtain c where c: "map_of (db w) name = Some c"
    and run: "ensureIndexes_forEach name (map idx_name (coll_indexes c)) specs ?w1 = (w', Inr u)"
    by (auto simp: ensureIndexes_def getIndexes_eq split: option.splits)
  have "map_of (db ?w1) name = Some c"
    using c by simp
  from forEach_Inr [OF run this] c show ?thesis
    by auto
qed

lemma ensureIndexes_frame:
  "n \<noteq> name \<Longrightarrow> map_of (db (fst (ensureIndexes name specs w))) n = map_of (db w) n"
  by (simp add: ensureIndexes_def getIndexes_eq forEach_frame split: option.splits)

lemma ensureIndexes_refuses [simp]: "refuses (fst (ensureIndexes name specs w)) = refuses w"
  by (simp add: ensureIndexes_def getIndexes_eq split: option.splits)

lemma ensureIndexes_stable:
  assumes "map_of (db w) name = Some c"
    and "idx_name ` set specs \<subseteq> idx_name ` set (coll_indexes c)"
  shows "db (fst (ensureIndexes name specs w)) = db w"
  using assms
  by (simp add: ensureIndexes_def getIndexes_eq forEach_all_live split: option.splits)

lemma ensureIndexes_accepted:
  assumes "refuses w = (\<lambda>n d c. None)" and "map_of (db w) name = Some c"
    and "distinct (map idx_name specs)"
  shows "snd (ensureIndexes name specs w) = Inr ()"
proof -
  let ?w1 = "w\<lparr>calls := calls w @ [GetIndexes name]\<rparr>"
  have "snd (ensureIndexes_forEach name (map idx_name (coll_indexes c)) specs ?w1) = Inr ()"
    using assms by (intro forEach_accepted [of _ _ c]) auto
  then show ?thesis
    using assms by (simp add: ensureIndexes_def getIndexes_eq)
qed

lemma seedIfEmpty_Inr:
  assumes "seedIfEmpty w = (w', Inr u)" and "map_of (db w) ''onboarding_steps'' = Some c"
  shows "\<exists>c'. map_of (db w') ''onboarding_steps'' = Some c' \<and>
           coll_options c' = coll_options c \<and> coll_indexes c' = coll_indexes c \<and>
           coll_documents c' \<noteq> []"
  using assms
  by (auto simp: seedIfEmpty_defs documents_of_def AList.update_conv' seedRecords_def
      split: option.splits if_splits)

lemma seedIfEmpty_frame:
  "n \<noteq> ''onboarding_steps'' \<Longrightarrow> map_of (db (fst (seedIfEmpty w))) n = map_of (db w) n"
  by (simp add: seedIfEmpty_defs AList.update_conv' split: option.splits)

lemma seedIfEmpty_stable:
  "documents_of (db w) ''onboarding_steps'' \<noteq> [] \<Longrightarrow> db (fst (seedIfEmpty w)) = db w"
  by (simp add: seedIfEmpty_defs split: option.splits)

lemma seedIfEmpty_accepted:
  "refuses w = (\<lambda>n d c. None) \<Longrightarrow> snd (seedIfEmpty w) = Inr ()"
  by (simp add: seedIfEmpty_defs)

subsection \<open>The whole script\<close>

lemma init_mongo_Inr:
  assumes "init_mongo w = (w', Inr u)"
  obtains w1 w2 w3 w4 w5 where
    "ensureCollectionWithValidator ''users'' usersSchema None w = (w1, Inr ())"
    "ensureCollectionWithValidator ''onboarding_steps'' onboardingStepsSchema None w1 = (w2, Inr ())"
    "ensureIndexes ''users'' usersIndexes w2 = (w3, Inr ())"
    "ensureIndexes ''onboarding_steps'' onboardingStepsIndexes w3 = (w4, Inr ())"
    "seedIfEmpty w4 = (w5, Inr ())"
    "db w' = db w5"
  using assms
  by (auto simp: init_mongo_def Let_def split: prod.splits sum.splits)

lemma init_mongo_reconciles:
  assumes "init_mongo w = (w', Inr u)"
  shows "reconciled (db w')"
proof -
  let ?u = "''users''" and ?s = "''onboarding_steps''"
  from assms obtain w1 w2 w3 w4 w5 where
    1: "ensureCollectionWithValidator ?u usersSchema None w = (w1, Inr ())" and
    2: "ensureCollectionWithValidator ?s onboardingStepsSchema None w1 = (w2, Inr ())" and
    3: "ensureIndexes ?u usersIndexes w2 = (w3, Inr ())" and
    4: "ensureIndexes ?s onboardingStepsIndexes w3 = (w4, Inr ())" and
    5: "seedIfEmpty w4 = (w5, Inr ())" and
    6: "db w' = db w5"
    by (rule init_mongo_Inr)
  \<comment> \<open>the users collection\<close>
  from ensureCollection_Inr [OF 1] obtain cu1 where
    cu1: "map_of (db w1) ?u = Some cu1"
      "Object_assign (coll_options cu1)
         [(''validator'', JObj [(''$jsonSchema'', usersSchema)]),
          (''validationLevel'', JStr ''moderate''),
          (''validationAction'', JStr ''error'')] = coll_options cu1"
    by blast
  have "map_of (db w2) ?u = map_of (db w1) ?u"
    using ensureCollection_frame [of ?u ?s onboardingStepsSchema None w1] 2 by simp
  with cu1 have cu2: "map_of (db w2) ?u = Some cu1" by simp
  from ensureIndexes_Inr [OF 3] cu2 obtain cu3 where
    cu3: "map_of (db w3) ?u = Some cu3" "coll_options cu3 = coll_options cu1"
      "idx_name ` set usersIndexes \<subseteq> idx_name ` set (coll_indexes cu3)"
    by auto
  have "map_of (db w4) ?u = map_of (db w3) ?u"
    using ensureIndexes_frame [of ?u ?s onboardingStepsIndexes w3] 4 by simp
  moreover have "map_of (db w5) ?u = map_of (db w4) ?u"
    using seedIfEmpty_frame [of ?u w4] 5 by simp
  ultimately have cu5: "map_of (db w5) ?u = Some cu3"
    using cu3 by simp
  have users: "reconciled_collection usersSchema usersIndexes cu3"
    using cu1(2) cu3 by (simp add: reconciled_collection_def)
  \<comment> \<open>the onboarding steps collection\<close>
  from ensureCollection_Inr [OF 2] obtain cs2 where
    cs2: "map_of (db w2) ?s = Some cs2"
      "Object_assign (coll_options cs2)
         [(''validator'', JObj [(''$jsonSchema'', onboardingStepsSchema)]),
          (''validationLevel'', JStr ''moderate''),
          (''validationAction'', JStr ''error'')] = coll_options cs2"
    by blast
  have "map_of (db w3) ?s = map_of (db w2) ?s"
    using ensureIndexes_frame [of ?s ?u usersIndexes w2] 3 by simp
  with cs2 have cs3: "map_of (db w3) ?s = Some cs2" by simp
  from ensureIndexes_Inr [OF 4] cs3 obtain cs4 where
    cs4: "map_of (db w4) ?s = Some cs4" "coll_options cs4 = coll_options cs2"
      "idx_name ` set onboardingStepsIndexes \<subseteq> idx_name ` set (coll_indexes cs4)"
    by auto
  from seedIfEmpty_Inr [OF 5 cs4(1)] obtain cs5 where
    cs5: "map_of (db w5) ?s = Some cs5" "coll_options cs5 = coll_options cs4"
      "coll_indexes cs5 = coll_indexes cs4" "coll_documents cs5 \<noteq> []"
    by blast
  have steps: "reconciled_collection onboardingStepsSchema onboardingStepsIndexes cs5"
    using cs2(2) cs4 cs5 by (simp add: reconciled_collection_def)
  from users steps cu5 cs5 6 show ?thesis
    by (simp add: reconciled_def)
qed

lemma init_mongo_stable:
  assumes "reconciled (db w)"
  shows "db (fst (init_mongo w)) = db w"
proof -
  let ?u = "''users''" and ?s = "''onboarding_steps''"
  from assms obtain cu cs where
    cu: "map_of (db w) ?u = Some cu" "reconciled_collection usersSchema usersIndexes cu" and
    cs: "map_of (db w) ?s = Some cs"
      "reconciled_collection onboardingStepsSchema onboardingStepsIndexes cs"
      "coll_documents cs \<noteq> []"
    by (auto simp: reconciled_def split: option.splits)
  obtain w1 r1 where 1: "ensureCollectionWithValidator ?u usersSchema None w = (w1, r1)"
    by (cases "ensureCollectionWithValidator ?u usersSchema None w")
  obtain w2 r2 where 2: "ensureCollectionWithValidator ?s onboardingStepsSchema None w1 = (w2, r2)"
    by (cases "ensureCollectionWithValidator ?s onboardingStepsSchema None w1")
  obtain w3 r3 where 3: "ensureIndexes ?u usersIndexes w2 = (w3, r3)"
    by (cases "ensureIndexes ?u usersIndexes w2")
  obtain w4 r4 where 4: "ensureIndexes ?s onboardingStepsIndexes w3 = (w4, r4)"
    by (cases "ensureIndexes ?s onboardingStepsIndexes w3")
  obtain w5 r5 where 5: "seedIfEmpty w4 = (w5, r5)"
    by (cases "seedIfEmpty w4")
  have d1: "db w1 = db w"
    using ensureCollection_stable [OF cu(1), of usersSchema None] cu(2) 1
    by (simp add: reconciled_collection_def)
  have d2: "db w2 = db w"
    using ensureCollection_stable [of w1 ?s cs onboardingStepsSchema None] cs(1,2) 2 d1
    by (simp add: reconciled_collection_def)
  have d3: "db w3 = db w"
    using ensureIndexes_stable [of w2 ?u cu usersIndexes] cu 3 d2
    by (simp add: reconciled_collection_def)
  have d4: "db w4 = db w"
    using ensureIndexes_stable [of w3 ?s cs onboardingStepsIndexes] cs(1,2) 4 d3
    by (simp add: reconciled_collection_def)
  have d5: "db w5 = db w"
    using seedIfEmpty_stable [of w4] cs(1,3) 5 d4
    by (simp add: documents_of_def)
  show ?thesis
    using 1 2 3 4 5 d1 d2 d3 d4 d5
    by (simp add: init_mongo_def Let_def split: sum.splits)
qed

lemma distinct_index_names:
  "distinct (map idx_name usersIndexes)" "distinct (map idx_name onboardingStepsIndexes)"
  by (simp_all add: usersIndexes_def onboardingStepsIndexes_def)

lemma init_mongo_accepted:
  assumes "refuses w = (\<lambda>n d c. None)"
  shows "snd (init_mongo w) = Inr ()"
proof -
  let ?u = "''users''" and ?s = "''onboarding_steps''"
  obtain w1 where 1: "ensureCollectionWithValidator ?u usersSchema None w = (w1, Inr ())"
    using ensureCollection_accepted [OF assms, of ?u usersSchema None]
    by (cases "ensureCollectionWithValidator ?u usersSchema None w") simp
  have r1: "refuses w1 = (\<lambda>n d c. None)"
    using ensureCollection_refuses [of ?u usersSchema None w] 1 assms by simp
  obtain w2 where 2: "ensureCollectionWithValidator ?s onboardingStepsSchema None w1 = (w2, Inr ())"
    using ensureCollection_accepted [OF r1, of ?s onboardingStepsSchema None]
    by (cases "ensureCollectionWithValidator ?s onboardingStepsSchema None w1") simp
  have r2: "refuses w2 = (\<lambda>n d c. None)"
    using ensureCollection_refuses [of ?s onboardingStepsSchema None w1] 2 r1 by simp
  from ensureCollection_Inr [OF 1] obtain cu where "map_of (db w1) ?u = Some cu"
    by blast
  then have cu: "map_of (db w2) ?u = Some cu"
    using ensureCollection_frame [of ?u ?s onboardingStepsSchema None w1] 2 by simp
  from ensureCollection_Inr [OF 2] obtain cs where cs: "map_of (db w2) ?s = Some cs"
    by blast
  obtain w3 where 3: "ensureIndexes ?u usersIndexes w2 = (w3, Inr ())"
    using ensureIndexes_accepted [OF r2 cu distinct_index_names(1)]
    by (cases "ensureIndexes ?u usersIndexes w2") simp
  have r3: "refuses w3 = (\<lambda>n d c. None)"
    using ensureIndexes_refuses [of ?u usersIndexes w2] 3 r2 by simp
  have cs3: "map_of (db w3) ?s = Some cs"
    using ensureIndexes_frame [of ?s ?u usersIndexes w2] 3 cs by simp
  obtain w4 where 4: "ensureIndexes ?s onboardingStepsIndexes w3 = (w4, Inr ())"
    using ensureIndexes_accepted [OF r3 cs3 distinct_index_names(2)]
    by (cases "ensureIndexes ?s onboardingStepsIndexes w3") simp
  have r4: "refuses w4 = (\<lambda>n d c. None)"
    using ensureIndexes_refuses [of ?s onboardingStepsIndexes w3] 4 r3 by simp
  obtain w5 where 5: "seedIfEmpty w4 = (w5, Inr ())"
    using seedIfEmpty_accepted [OF r4]
    by (cases "seedIfEmpty w4") simp
  show ?thesis
    using 1 2 3 4 5 by (simp add: init_mongo_def)
qed

lemmas init_mongo_defs =
  init_mongo_def ensureCollection_defs ensureIndexes_def getIndexes_eq createIndex_def
  seedIfEmpty_defs new_collection_def usersIndexes_def onboardingStepsIndexes_def id_index_def

text \<open>
  C1: from every database, on a server that refuses nothing, the script runs to its end;
  and whenever a run has reached its end, running the script again on the database it
  left (whatever the server then refuses, whatever the clock shows) leaves exactly that
  database: the same collections with the same options, the same indexes and the same
  documents, so no second collection, index or seed record.
\<close>

theorem init_mongo_idempotent:
  "(refuses w = (\<lambda>n d c. None) \<longrightarrow> snd (init_mongo w) = Inr ()) \<and>
   (snd (init_mongo w) = Inr () \<longrightarrow> db w' = db (fst (init_mongo w)) \<longrightarrow>
      db (fst (init_mongo w')) = db (fst (init_mongo w)))"
proof (intro conjI impI)
  assume "refuses w = (\<lambda>n d c. None)"
  then show "snd (init_mongo w) = Inr ()"
    by (rule init_mongo_accepted)
next
  assume ok: "snd (init_mongo w) = Inr ()" and same: "db w' = db (fst (init_mongo w))"
  from ok have "init_mongo w = (fst (init_mongo w), Inr ())"
    by (cases "init_mongo w") simp
  then have "reconciled (db (fst (init_mongo w)))"
    by (rule init_mongo_reconciles)
  with same have "reconciled (db w')"
    by simp
  then have "db (fst (init_mongo w')) = db w'"
    by (rule init_mongo_stable)
  with same show "db (fst (init_mongo w')) = db (fst (init_mongo w))"
    by simp
qed

theorem init_mongo_idempotent_witness:
  "refuses fresh_world = (\<lambda>n d c. None) \<and>
   snd (init_mongo fresh_world) = Inr () \<and>
   db (fst (init_mongo (fst (init_mongo fresh_world)))) = db (fst (init_mongo fresh_world)) \<and>
   refuses legacy_world = (\<lambda>n d c. None) \<and>
   snd (init_mongo legacy_world) = Inr () \<and>
   db (fst (init_mongo (fst (init_mongo legacy_world)))) = db (fst (init_mongo legacy_world)) \<and>
   map (\<lambda>(name, c). (name, map idx_name (coll_indexes c), length (coll_documents c)))
       (db (fst (init_mongo (fst (init_mongo legacy_world))))) =
     [(''users'',
        [''_id_'', ''uniq_email'', ''uniq_username'', ''oauth_provider_id'',
         ''onboarding_currentStep'', ''createdAt_desc'', ''updatedAt_desc''], 1),
      (''onboarding_steps'', [''_id_'', ''uniq_key'', ''order_asc''], 1)]"
proof -
  have f: "refuses fresh_world = (\<lambda>n d c. None)" and l: "refuses legacy_world = (\<lambda>n d c. None)"
    by (simp_all add: fresh_world_def legacy_world_def)
  note tf = init_mongo_idempotent [of fresh_world "fst (init_mongo fresh_world)"]
  note tl = init_mongo_idempotent [of legacy_world "fst (init_mongo legacy_world)"]
  have "map (\<lambda>(name, c). (name, map idx_name (coll_indexes c), length (coll_documents c)))
       (db (fst (init_mongo legacy_world))) =
     [(''users'',
        [''_id_'', ''uniq_email'', ''uniq_username'', ''oauth_provider_id'',
         ''onboarding_currentStep'', ''createdAt_desc'', ''updatedAt_desc''], 1),
      (''onboarding_steps'', [''_id_'', ''uniq_key'', ''order_asc''], 1)]"
    by (simp add: legacy_world_def init_mongo_defs documents_of_def Object_assign_def)
  with tf tl f l show ?thesis
    by simp
qed

section \<open>A fresh database\<close>

text \<open>
  C5 (as the code has it): on a database without collections and a server that refuses
  nothing, the script runs to its end; it creates the two collections with their
  validators, then eight indexes, six on \<^verbatim>\<open>users\<close> (\<^verbatim>\<open>uniq_email\<close>, \<^verbatim>\<open>uniq_username\<close>,
  \<^verbatim>\<open>oauth_provider_id\<close>, \<^verbatim>\<open>onboarding_currentStep\<close>, \<^verbatim>\<open>createdAt_desc\<close>,
  \<^verbatim>\<open>updatedAt_desc\<close>) and two on \<^verbatim>\<open>onboarding_steps\<close> (\<^verbatim>\<open>uniq_key\<close>, \<^verbatim>\<open>order_asc\<close>), and
  inserts the four seed records into \<^verbatim>\<open>onboarding_steps\<close>.
\<close>

theorem fresh_database_run:
  assumes "db w = []" and "refuses w = (\<lambda>n d c. None)"
  shows "snd (init_mongo w) = Inr () \<and>
         calls (fst (init_mongo w)) =
           calls w @
           [GetCollectionNames,
            CreateCollection ''users''
              [(''validator'', JObj [(''$jsonSchema'', usersSchema)]),
               (''validationLevel'', JStr ''moderate''),
               (''validationAction'', JStr ''error'')],
            GetCollectionNames,
            CreateCollection ''onboarding_steps''
              [(''validator'', JObj [(''$jsonSchema'', onboardingStepsSchema)]),
               (''validationLevel'', JStr ''moderate''),
               (''validationAction'', JStr ''error'')],
            GetIndexes ''users''] @
           map (\<lambda>s. CreateIndex ''users'' (idx_key s) s) usersIndexes @
           [GetIndexes ''onboarding_steps''] @
           map (\<lambda>s. CreateIndex ''onboarding_steps'' (idx_key s) s) onboardingStepsIndexes @
           [EstimatedDocumentCount ''onboarding_steps'',
            InsertMany ''onboarding_steps'' (seedRecords (JDate (time w (reads w))))] \<and>
         map idx_name usersIndexes =
           [''uniq_email'', ''uniq_username'', ''oauth_provider_id'',
            ''onboarding_currentStep'', ''createdAt_desc'', ''updatedAt_desc''] \<and>
         map idx_name onboardingStepsIndexes = [''uniq_key'', ''order_asc''] \<and>
         length usersIndexes = 6 \<and> length onboardingStepsIndexes = 2 \<and>
         length (seedRecords (JDate (time w (reads w)))) = 4 \<and>
         db (fst (init_mongo w)) =
           [(''users'',
               \<lparr>coll_options =
                  [(''validator'', JObj [(''$jsonSchema'', usersSchema)]),
                   (''validationLevel'', JStr ''moderate''),
                   (''validationAction'', JStr ''error'')],
                coll_indexes = id_index # usersIndexes,
                coll_documents = []\<rparr>),
            (''onboarding_steps'',
               \<lparr>coll_options =
                  [(''validator'', JObj [(''$jsonSchema'', onboardingStepsSchema)]),
                   (''validationLevel'', JStr ''moderate''),
                   (''validationAction'', JStr ''error'')],
                coll_indexes = id_index # onboardingStepsIndexes,
                coll_documents = seedRecords (JDate (time w (reads w)))\<rparr>)]"
proof (intro conjI)
  show "snd (init_mongo w) = Inr ()"
    using assms(2) by (rule init_mongo_accepted)
next
  show "calls (fst (init_mongo w)) =
           calls w @
           [GetCollectionNames,
            CreateCollection ''users''
              [(''validator'', JObj [(''$jsonSchema'', usersSchema)]),
               (''validationLevel'', JStr ''moderate''),
               (''validationAction'', JStr ''error'')],
            GetCollectionNames,
            CreateCollection ''onboarding_steps''
              [(''validator'', JObj [(''$jsonSchema'', onboardingStepsSchema)]),
               (''validationLevel'', JStr ''moderate''),
               (''validationAction'', JStr ''error'')],
            GetIndexes ''users''] @
           map (\<lambda>s. CreateIndex ''users'' (idx_key s) s) usersIndexes @
           [GetIndexes ''onboarding_steps''] @
           map (\<lambda>s. CreateIndex ''onboarding_steps'' (idx_key s) s) onboardingStepsIndexes @
           [EstimatedDocumentCount ''onboarding_steps'',
            InsertMany ''onboarding_steps'' (seedRecords (JDate (time w (reads w))))]"
    using assms by (simp add: init_mongo_defs documents_of_def)
next
  show "db (fst (init_mongo w)) =
           [(''users'',
               \<lparr>coll_options =
                  [(''validator'', JObj [(''$jsonSchema'', usersSchema)]),
                   (''validationLevel'', JStr ''moderate''),
                   (''validationAction'', JStr ''error'')],
                coll_indexes = id_index # usersIndexes,
                coll_documents = []\<rparr>),
            (''onboarding_steps'',
               \<lparr>coll_options =
                  [(''validator'', JObj [(''$jsonSchema'', onboardingStepsSchema)]),
                   (''validationLevel'', JStr ''moderate''),
                   (''validationAction'', JStr ''error'')],
                coll_indexes = id_index # onboardingStepsIndexes,
                coll_documents = seedRecords (JDate (time w (reads w)))\<rparr>)]"
    using assms by (simp add: init_mongo_defs documents_of_def)
qed (simp_all add: usersIndexes_def onboardingStepsIndexes_def seedRecords_def)

theorem fresh_database_run_witness:
  "db fresh_world = [] \<and> refuses fresh_world = (\<lambda>n d c. None) \<and>
   snd (init_mongo fresh_world) = Inr () \<and>
   created_indexes (calls (fst (init_mongo fresh_world))) =
     [(''users'', ''uniq_email''), (''users'', ''uniq_username''),
      (''users'', ''oauth_provider_id''), (''users'', ''onboarding_currentStep''),
      (''users'', ''createdAt_desc''), (''users'', ''updatedAt_desc''),
      (''onboarding_steps'', ''uniq_key''), (''onboarding_steps'', ''order_asc'')] \<and>
   map (\<lambda>(name, c). (name, length (coll_indexes c), length (coll_documents c)))
       (db (fst (init_mongo fresh_world))) =
     [(''users'', 7, 0), (''onboarding_steps'', 3, 4)]"
proof -
  have h: "db fresh_world = []" "refuses fresh_world = (\<lambda>n d c. None)"
    by (simp_all add: fresh_world_def)
  have c: "calls fresh_world = []"
    by (simp add: fresh_world_def)
  from fresh_database_run [OF h] h c show ?thesis
    by (simp add: created_indexes_def usersIndexes_def onboardingStepsIndexes_def)
qed

text \<open>The run on the empty database creates eight indexes, six of them on \<^verbatim>\<open>users\<close>.\<close>

theorem seven_indexes_counterexample:
  "db fresh_world = [] \<and>
   created_indexes (calls (fst (init_mongo fresh_world))) =
     [(''users'', ''uniq_email''), (''users'', ''uniq_username''),
      (''users'', ''oauth_provider_id''), (''users'', ''onboarding_currentStep''),
      (''users'', ''createdAt_desc''), (''users'', ''updatedAt_desc''),
      (''onboarding_steps'', ''uniq_key''), (''onboarding_steps'', ''order_asc'')] \<and>
   length (created_indexes (calls (fst (init_mongo fresh_world)))) \<noteq> 7 \<and>
   count_list (map fst (created_indexes (calls (fst (init_mongo fresh_world))))) ''users'' \<noteq> 5"
  by (simp add: fresh_world_def init_mongo_defs documents_of_def created_indexes_def)

end
